theory Spec2Isabelle
  imports Main "HOL-Library.AList" "HOL-Library.Sublist"
begin

section \<open>Python values and string helpers\<close>

text \<open>
  The exceptions that the modelled code can raise. \<open>BadRequest\<close> is the application's own
  error class (errors.py) and carries the text of its \<open>error\<close> payload; the four git
  exceptions are the ones \<open>run_git_clone_or_checkout\<close> catches; \<open>ResponseError\<close> and
  \<open>DataError\<close> are raised by the record store client; \<open>ValidationFailure\<close> is the class
  that \<open>validate_git_url\<close> catches; \<open>OtherError\<close> stands for any exception outside these
  classes (for instance a failing \<open>du\<close> subprocess).
\<close>

datatype exc =
    BadRequest string
  | ResponseError
  | DataError
  | AttributeError
  | IndexError
  | OSError
  | CheckoutError
  | InvalidGitRepositoryError
  | NoSuchPathError
  | GitCommandError
  | ValidationFailure
  | OtherError string

text \<open>An element of the JSON list of ids: a number or a string.\<close>

datatype jval = JInt int | JStr string

subsection \<open>Decimal numerals: \<open>str(n)\<close> and the store's integer parser\<close>

definition digit_char :: "nat \<Rightarrow> char" where
  "digit_char d = char_of (48 + d)"

fun str_nat :: "nat \<Rightarrow> string" where
  "str_nat n = (if n < 10 then [digit_char n] else str_nat (n div 10) @ [digit_char (n mod 10)])"

declare str_nat.simps [simp del]

definition str_int :: "int \<Rightarrow> string" where
  "str_int i = (if i < 0 then CHR ''-'' # str_nat (nat (- i)) else str_nat (nat i))"

definition digit_val :: "char \<Rightarrow> nat" where
  "digit_val c = of_char c - 48"

definition nat_of_digits :: "string \<Rightarrow> nat" where
  "nat_of_digits s = foldl (\<lambda>acc c. 10 * acc + digit_val c) 0 s"

definition int_of_str :: "string \<Rightarrow> int" where
  "int_of_str s = (case s of
      [] \<Rightarrow> 0
    | c # cs \<Rightarrow> if c = CHR ''-'' then - int (nat_of_digits cs) else int (nat_of_digits s))"

text \<open>
  The store parses a counter value strictly: the string must be the canonical decimal
  numeral of a signed 64-bit integer.
\<close>

definition INT64_MAX :: int where
  "INT64_MAX = 9223372036854775807"

definition parse_int :: "string \<Rightarrow> int option" where
  "parse_int s = (let n = int_of_str s in
     if str_int n = s \<and> - INT64_MAX - 1 \<le> n \<and> n \<le> INT64_MAX then Some n else None)"

definition py_str :: "jval \<Rightarrow> string" where
  "py_str j = (case j of JInt n \<Rightarrow> str_int n | JStr s \<Rightarrow> s)"

subsection \<open>\<open>str.split\<close>\<close>

text \<open>\<open>s.split(c)\<close> with an explicit separator: never empty, keeps empty segments.\<close>

fun split_on :: "char \<Rightarrow> string \<Rightarrow> string list" where
  "split_on c [] = [[]]"
| "split_on c (x # xs) =
     (if x = c then [] # split_on c xs
      else (case split_on c xs of [] \<Rightarrow> [[x]] | y # ys \<Rightarrow> (x # y) # ys))"

text \<open>\<open>s.split()\<close> with no separator: splits on runs of whitespace, drops empty segments.\<close>

definition is_space :: "char \<Rightarrow> bool" where
  "is_space c = (c = CHR '' '' \<or> c = CHR 0x09 \<or> c = CHR 0x0A \<or> c = CHR 0x0B
                 \<or> c = CHR 0x0C \<or> c = CHR 0x0D)"

fun split_ws_from :: "string \<Rightarrow> string \<Rightarrow> string list" where
  "split_ws_from cur [] = (if cur = [] then [] else [rev cur])"
| "split_ws_from cur (x # xs) =
     (if is_space x then (if cur = [] then split_ws_from [] xs else rev cur # split_ws_from [] xs)
      else split_ws_from (x # cur) xs)"

definition py_split :: "string \<Rightarrow> string list" where
  "py_split s = split_ws_from [] s"

text \<open>\<open>sep.join(xs)\<close>.\<close>

fun py_join :: "string \<Rightarrow> string list \<Rightarrow> string" where
  "py_join sep [] = []"
| "py_join sep [x] = x"
| "py_join sep (x # y # ys) = x @ sep @ py_join sep (y # ys)"

subsection \<open>\<open>os.path.join\<close> for two components\<close>

definition path_join :: "string \<Rightarrow> string \<Rightarrow> string" where
  "path_join a b =
     (if b \<noteq> [] \<and> hd b = CHR ''/'' then b
      else if a = [] \<or> last a = CHR ''/'' then a @ b
      else a @ ''/'' @ b)"

section \<open>The record store\<close>

text \<open>
  One keyspace; a key holds either a plain string (the counter, a url-to-id mapping) or a
  hash of fields (a repository record). A command applied to a key of the other kind is
  answered with \<open>ResponseError\<close> (WRONGTYPE).
\<close>

type_synonym fields = "(string \<times> string) list"

datatype rval = RStr string | RHash fields

type_synonym store = "(string \<times> rval) list"

definition r_get :: "store \<Rightarrow> string \<Rightarrow> exc + string option" where
  "r_get r k = (case map_of r k of
      None \<Rightarrow> Inr None
    | Some (RStr s) \<Rightarrow> Inr (Some s)
    | Some (RHash _) \<Rightarrow> Inl ResponseError)"

definition r_incr :: "store \<Rightarrow> string \<Rightarrow> exc + (int \<times> store)" where
  "r_incr r k = (case map_of r k of
      None \<Rightarrow> Inr (1, AList.update k (RStr (str_int 1)) r)
    | Some (RHash _) \<Rightarrow> Inl ResponseError
    | Some (RStr s) \<Rightarrow> (case parse_int s of
          None \<Rightarrow> Inl ResponseError
        | Some n \<Rightarrow> if n < INT64_MAX
                    then Inr (n + 1, AList.update k (RStr (str_int (n + 1))) r)
                    else Inl ResponseError))"

definition r_getset :: "store \<Rightarrow> string \<Rightarrow> string \<Rightarrow> exc + (string option \<times> store)" where
  "r_getset r k v = (case map_of r k of
      None \<Rightarrow> Inr (None, AList.update k (RStr v) r)
    | Some (RStr s) \<Rightarrow> Inr (Some s, AList.update k (RStr v) r)
    | Some (RHash _) \<Rightarrow> Inl ResponseError)"

definition r_hmset :: "store \<Rightarrow> string \<Rightarrow> fields \<Rightarrow> exc + store" where
  "r_hmset r k m =
     (if m = [] then Inl DataError
      else (case map_of r k of
          None \<Rightarrow> Inr (AList.update k (RHash (AList.updates (map fst m) (map snd m) [])) r)
        | Some (RHash h) \<Rightarrow> Inr (AList.update k (RHash (AList.updates (map fst m) (map snd m) h)) r)
        | Some (RStr _) \<Rightarrow> Inl ResponseError))"

text \<open>\<open>redis.hmget(k, f)[0]\<close>: the value of one field, \<open>None\<close> when key or field is missing.\<close>

definition r_hmget :: "store \<Rightarrow> string \<Rightarrow> string \<Rightarrow> exc + string option" where
  "r_hmget r k f = (case map_of r k of
      None \<Rightarrow> Inr None
    | Some (RHash h) \<Rightarrow> Inr (map_of h f)
    | Some (RStr _) \<Rightarrow> Inl ResponseError)"

definition r_hgetall :: "store \<Rightarrow> string \<Rightarrow> exc + fields" where
  "r_hgetall r k = (case map_of r k of
      None \<Rightarrow> Inr []
    | Some (RHash h) \<Rightarrow> Inr h
    | Some (RStr _) \<Rightarrow> Inl ResponseError)"

text \<open>Deleting the last field of a hash deletes the key.\<close>

definition r_hdel :: "store \<Rightarrow> string \<Rightarrow> string \<Rightarrow> exc + store" where
  "r_hdel r k f = (case map_of r k of
      None \<Rightarrow> Inr r
    | Some (RHash h) \<Rightarrow>
        (let h' = AList.delete f h
         in Inr (if h' = [] then AList.delete k r else AList.update k (RHash h') r))
    | Some (RStr _) \<Rightarrow> Inl ResponseError)"

definition r_delete :: "store \<Rightarrow> string \<Rightarrow> store" where
  "r_delete r k = AList.delete k r"

text \<open>\<open>redis.keys(pattern='git_repo_id:*')\<close>: the keys that start with the prefix.\<close>

definition r_keys_prefix :: "store \<Rightarrow> string \<Rightarrow> string list" where
  "r_keys_prefix r p = filter (prefix p) (map fst r)"

text \<open>Python truthiness of a value read from the store: present and not the empty string.\<close>

definition truthy :: "string option \<Rightarrow> bool" where
  "truthy v = (case v of None \<Rightarrow> False | Some s \<Rightarrow> s \<noteq> [])"

section \<open>The world the routes act on\<close>

text \<open>
  Every externally visible effect is appended to a log, in the order the code performs it:
  writes to the store, changes of the file system, lock operations and process starts.
  Reads are not logged.
\<close>

datatype event =
    EvIncr string
  | EvGetSet string string
  | EvHMSet string fields
  | EvHDel string string
  | EvDelete string
  | EvSpawn string
  | EvOpen string
  | EvLockEx string
  | EvLockUn string
  | EvClose string
  | EvClone string string string
  | EvCheckout string string
  | EvRmTree string

text \<open>
  The file system holds regular files by path, with their size; directories are implicit.
  \<open>held\<close> lists the lock files on which the running process holds an exclusive lock.
\<close>

type_synonym fsT = "(string \<times> nat) list"

record world =
  redis :: store
  files :: fsT
  held :: "string list"
  trace :: "event list"

record commit =
  committer :: string
  hexsha :: string
  message :: string

text \<open>
  The external collaborators, as parameters: the home directory, the clock, the url
  validator, the version-control tool and \<open>du\<close>. A version-control operation either
  raises or succeeds, and may change the file system in both cases. \<open>git_iter_commits\<close>
  gives the commits reachable from the current checkout, newest first; \<open>git_tracked\<close>
  the paths of the tracked files; \<open>str_list\<close> is how the store client writes a list value.
  A call of the validator either raises or returns a value (true for a url it accepts).
\<close>

record env =
  home :: string
  strftime_now :: string
  url_validator :: "string \<Rightarrow> exc + bool"
  git_clone_from :: "string \<Rightarrow> string \<Rightarrow> string \<Rightarrow> fsT \<Rightarrow> exc option \<times> fsT"
  git_Repo :: "string \<Rightarrow> fsT \<Rightarrow> exc option"
  git_checkout :: "string \<Rightarrow> string \<Rightarrow> fsT \<Rightarrow> exc option \<times> fsT"
  git_iter_commits :: "string \<Rightarrow> fsT \<Rightarrow> exc + commit list"
  git_tracked :: "string \<Rightarrow> fsT \<Rightarrow> exc + string list"
  du_sh :: "string \<Rightarrow> fsT \<Rightarrow> exc + string"
  str_list :: "string list \<Rightarrow> string"

definition log_ev :: "event \<Rightarrow> world \<Rightarrow> world" where
  "log_ev e w = w\<lparr>trace := trace w @ [e]\<rparr>"

definition GIT_REPOS_PATH :: "env \<Rightarrow> string" where
  "GIT_REPOS_PATH E = path_join (home E) ''git_repositories/''"

definition counter_key :: string where
  "counter_key = ''git_repo_id:id''"

definition record_key :: "string \<Rightarrow> string" where
  "record_key s = ''git_repo_id:'' @ s"

text \<open>\<open>repo_url.split('/')[-1]\<close>\<close>

definition repo_name_of :: "string \<Rightarrow> string" where
  "repo_name_of url = last (split_on CHR ''/'' url)"

subsection \<open>File system operations\<close>

definition path_exists :: "fsT \<Rightarrow> string \<Rightarrow> bool" where
  "path_exists fs p = (map_of fs p \<noteq> None)"

definition st_size :: "fsT \<Rightarrow> string \<Rightarrow> nat" where
  "st_size fs p = (case map_of fs p of None \<Rightarrow> 0 | Some n \<Rightarrow> n)"

definition is_under :: "string \<Rightarrow> string \<Rightarrow> bool" where
  "is_under d f = prefix (if d \<noteq> [] \<and> last d = CHR ''/'' then d else d @ ''/'') f"

text \<open>\<open>shutil.rmtree(d)\<close>: removes every file below \<open>d\<close>; raises when there is nothing at \<open>d\<close>.\<close>

definition rmtree :: "string \<Rightarrow> fsT \<Rightarrow> exc + fsT" where
  "rmtree d fs = (if list_ex (\<lambda>p. is_under d (fst p)) fs
                  then Inr (filter (\<lambda>p. \<not> is_under d (fst p)) fs)
                  else Inl OSError)"

section \<open>routes.py\<close>

subsection \<open>\<open>clone_checkout_git_repository\<close>\<close>

text \<open>
  The source function returns nothing; the model returns the local \<open>git_repo_id\<close>, which is
  the identity the call resolved and the argument of the process it starts.
\<close>

definition clone_checkout_git_repository ::
    "string \<Rightarrow> fields \<Rightarrow> world \<Rightarrow> (exc + string) \<times> world" where
  "clone_checkout_git_repository url repository w =
     (case r_get (redis w) url of
        Inl e \<Rightarrow> (Inl e, w)
      | Inr url_id_known \<Rightarrow>
          (case (if truthy url_id_known then (Inr (the url_id_known), w)
                 else (case r_incr (redis w) counter_key of
                         Inl e \<Rightarrow> (Inl e, w)
                       | Inr (n, r1) \<Rightarrow>
                           (let git_repo_id = record_key (str_int n);
                                w1 = log_ev (EvIncr counter_key) (w\<lparr>redis := r1\<rparr>)
                            in (case r_getset (redis w1) url git_repo_id of
                                  Inl e \<Rightarrow> (Inl e, w1)
                                | Inr (_, r2) \<Rightarrow>
                                    (Inr git_repo_id,
                                     log_ev (EvGetSet url git_repo_id) (w1\<lparr>redis := r2\<rparr>))))))
           of (Inl e, w2) \<Rightarrow> (Inl e, w2)
            | (Inr git_repo_id, w2) \<Rightarrow>
                (case r_hmset (redis w2) git_repo_id repository of
                   Inl e \<Rightarrow> (Inl e, w2)
                 | Inr r3 \<Rightarrow>
                     (Inr git_repo_id,
                      log_ev (EvSpawn git_repo_id)
                        (log_ev (EvHMSet git_repo_id repository) (w2\<lparr>redis := r3\<rparr>))))))"

subsection \<open>\<open>validate_git_url\<close> and \<open>post_git_repositories\<close>\<close>

text \<open>
  The source calls the validator, drops what it returns, and turns a raised
  \<open>ValidationFailure\<close> into \<open>BadRequest\<close>; any other exception propagates.
\<close>

definition validate_git_url :: "env \<Rightarrow> string \<Rightarrow> exc + unit" where
  "validate_git_url E url =
     (case url_validator E url of
        Inl e \<Rightarrow>
          (if e = ValidationFailure
           then Inl (BadRequest (''The repository url '' @ [CHR 0x27] @ url @ [CHR 0x27] @ '' is not valid.''))
           else Inl e)
      | Inr _ \<Rightarrow> Inr ())"

text \<open>
  The handler from the decoded request on: \<open>None\<close> is a missing or empty body, \<open>Some
  repository\<close> the decoded JSON object with its values as the store writes them.
\<close>

definition post_git_repositories :: "env \<Rightarrow> fields option \<Rightarrow> world \<Rightarrow> (exc + string) \<times> world" where
  "post_git_repositories E post_json w =
     (case post_json of
        None \<Rightarrow> (Inl (BadRequest ''Expected a JSON serialized Git repository representation with a valid remote url with optional [branch, revision]''), w)
      | Some repository \<Rightarrow>
          (case map_of repository ''url'' of
             None \<Rightarrow> (Inl (BadRequest (''An Error while processing incoming JSON Git repository information: ''
                        @ [CHR 0x27] @ ''url'' @ [CHR 0x27] @ ''. '' @ [CHR 0x27] @ ''url'' @ [CHR 0x27]
                        @ '' is an obligatory parameter.'')), w)
           | Some repo_url \<Rightarrow>
               (case validate_git_url E repo_url of
                  Inl e \<Rightarrow> (Inl e, w)
                | Inr _ \<Rightarrow>
                    (case clone_checkout_git_repository repo_url repository w of
                       (Inl e, w') \<Rightarrow> (Inl e, w')
                     | (Inr _, w') \<Rightarrow> (Inr ''Accepted'', w')))))"

subsection \<open>\<open>check_repo_was_cloned\<close>\<close>

definition check_repo_was_cloned :: "string \<Rightarrow> string \<Rightarrow> world \<Rightarrow> exc + bool" where
  "check_repo_was_cloned repo_path repo_id w =
     (let path_to_git_index = path_join repo_path ''.git/index''
      in if path_exists (files w) path_to_git_index
         then (if st_size (files w) path_to_git_index > 0
               then (case r_hmget (redis w) repo_id ''last_checkout'' of
                       Inl e \<Rightarrow> Inl e
                     | Inr v \<Rightarrow> Inr (truthy v))
               else Inr False)
         else Inr False)"

subsection \<open>\<open>update_repo_stats\<close>\<close>

text \<open>
  \<open>git_repo.git.ls_files()\<close> is the standard output of \<open>git ls-files\<close> without its final
  newline: the tracked paths, one per line (for paths that git prints unquoted).
\<close>

definition git_ls_files :: "env \<Rightarrow> string \<Rightarrow> fsT \<Rightarrow> exc + string" where
  "git_ls_files E p fs = (case git_tracked E p fs of
      Inl e \<Rightarrow> Inl e
    | Inr paths \<Rightarrow> Inr (py_join [CHR 0x0A] paths))"

text \<open>The store client writes \<open>None\<close> as the string \<open>None\<close>.\<close>

definition repo_stats_of ::
    "env \<Rightarrow> string \<Rightarrow> commit list \<Rightarrow> string list \<Rightarrow> fields" where
  "repo_stats_of E disk_usage recent_commits all_repo_files =
     [(''recent_committer'', (case recent_commits of [] \<Rightarrow> ''None'' | c # _ \<Rightarrow> committer c)),
      (''current_revision'', (case recent_commits of [] \<Rightarrow> ''None'' | c # _ \<Rightarrow> hexsha c)),
      (''last_5_messages'', str_list E (map message recent_commits)),
      (''total_files'', str_int (int (length all_repo_files))),
      (''disk_usage'', disk_usage),
      (''last_checkout'', strftime_now E)]"

definition update_repo_stats ::
    "env \<Rightarrow> string \<Rightarrow> string \<Rightarrow> world \<Rightarrow> (exc + unit) \<times> world" where
  "update_repo_stats E git_repo_id git_repo_path w =
     (case du_sh E git_repo_path (files w) of
        Inl e \<Rightarrow> (Inl e, w)
      | Inr out \<Rightarrow>
          (case py_split out of
             [] \<Rightarrow> (Inl IndexError, w)
           | disk_usage # _ \<Rightarrow>
               (case git_iter_commits E git_repo_path (files w) of
                  Inl e \<Rightarrow> (Inl e, w)
                | Inr commits \<Rightarrow>
                    (case git_ls_files E git_repo_path (files w) of
                       Inl e \<Rightarrow> (Inl e, w)
                     | Inr listing \<Rightarrow>
                         (let repo_stats = repo_stats_of E disk_usage (take 5 commits) (py_split listing)
                          in (case r_hmset (redis w) git_repo_id repo_stats of
                                Inl e \<Rightarrow> (Inl e, w)
                              | Inr r \<Rightarrow> (Inr (), log_ev (EvHMSet git_repo_id repo_stats) (w\<lparr>redis := r\<rparr>))))))))"

subsection \<open>\<open>run_git_clone_or_checkout\<close>\<close>

definition do_checkout :: "env \<Rightarrow> string \<Rightarrow> string \<Rightarrow> world \<Rightarrow> (exc + unit) \<times> world" where
  "do_checkout E p ref w =
     (case git_checkout E p ref (files w) of
        (res, fs') \<Rightarrow>
          (case res of Some e \<Rightarrow> Inl e | None \<Rightarrow> Inr (),
           log_ev (EvCheckout p ref) (w\<lparr>files := fs'\<rparr>)))"

definition do_clone :: "env \<Rightarrow> string \<Rightarrow> string \<Rightarrow> string \<Rightarrow> world \<Rightarrow> (exc + unit) \<times> world" where
  "do_clone E url p branch w =
     (case git_clone_from E url p branch (files w) of
        (res, fs') \<Rightarrow>
          (case res of Some e \<Rightarrow> Inl e | None \<Rightarrow> Inr (),
           log_ev (EvClone url p branch) (w\<lparr>files := fs'\<rparr>)))"

text \<open>The first branch of the \<open>try\<close> block: the working copy was cloned before.\<close>

definition checkout_existing :: "env \<Rightarrow> string \<Rightarrow> string \<Rightarrow> string \<Rightarrow> world \<Rightarrow> (exc + unit) \<times> world" where
  "checkout_existing E git_repo_id git_repo_path repo_branch w =
     (case r_hdel (redis w) git_repo_id ''last_checkout'' of
        Inl e \<Rightarrow> (Inl e, w)
      | Inr r \<Rightarrow>
          (let w1 = log_ev (EvHDel git_repo_id ''last_checkout'') (w\<lparr>redis := r\<rparr>)
           in (case git_Repo E git_repo_path (files w1) of
                 Some e \<Rightarrow> (Inl e, w1)
               | None \<Rightarrow> do_checkout E git_repo_path repo_branch w1)))"

text \<open>The body of the \<open>try\<close> block.\<close>

definition try_body ::
    "env \<Rightarrow> string \<Rightarrow> string \<Rightarrow> string \<Rightarrow> string option \<Rightarrow> string \<Rightarrow> world \<Rightarrow> (exc + unit) \<times> world" where
  "try_body E git_repo_id repo_url repo_branch repo_revision git_repo_path w =
     (case check_repo_was_cloned git_repo_path git_repo_id w of
        Inl e \<Rightarrow> (Inl e, w)
      | Inr cloned \<Rightarrow>
          (case (if cloned then checkout_existing E git_repo_id git_repo_path repo_branch w
                 else do_clone E repo_url git_repo_path repo_branch w)
           of (Inl e, w1) \<Rightarrow> (Inl e, w1)
            | (Inr _, w1) \<Rightarrow>
                (case (if truthy repo_revision then do_checkout E git_repo_path (the repo_revision) w1
                       else (Inr (), w1))
                 of (Inl e, w2) \<Rightarrow> (Inl e, w2)
                  | (Inr _, w2) \<Rightarrow> update_repo_stats E git_repo_id git_repo_path w2)))"

text \<open>The exception classes of the \<open>except\<close> clause.\<close>

definition caught :: "exc \<Rightarrow> bool" where
  "caught e = (e = CheckoutError \<or> e = InvalidGitRepositoryError \<or> e = NoSuchPathError
               \<or> e = GitCommandError)"

definition open_w :: "string \<Rightarrow> world \<Rightarrow> world" where
  "open_w f w = log_ev (EvOpen f) (w\<lparr>files := AList.update f 0 (files w)\<rparr>)"

definition flock_ex :: "string \<Rightarrow> world \<Rightarrow> world" where
  "flock_ex f w = log_ev (EvLockEx f) (w\<lparr>held := f # held w\<rparr>)"

definition flock_un :: "string \<Rightarrow> world \<Rightarrow> world" where
  "flock_un f w = log_ev (EvLockUn f) (w\<lparr>held := removeAll f (held w)\<rparr>)"

text \<open>Leaving the \<open>with\<close> block closes the lock file, which drops any lock held through it.\<close>

definition close_file :: "string \<Rightarrow> world \<Rightarrow> world" where
  "close_file f w = log_ev (EvClose f) (w\<lparr>held := removeAll f (held w)\<rparr>)"

definition run_git_clone_or_checkout :: "env \<Rightarrow> string \<Rightarrow> world \<Rightarrow> (exc + unit) \<times> world" where
  "run_git_clone_or_checkout E git_repo_id w =
     (case r_hmget (redis w) git_repo_id ''url'' of
        Inl e \<Rightarrow> (Inl e, w)
      | Inr repo_url \<Rightarrow>
     (case r_hmget (redis w) git_repo_id ''branch'' of
        Inl e \<Rightarrow> (Inl e, w)
      | Inr branch \<Rightarrow>
     (case r_hmget (redis w) git_repo_id ''revision'' of
        Inl e \<Rightarrow> (Inl e, w)
      | Inr repo_revision \<Rightarrow>
     (case repo_url of
        None \<Rightarrow> (Inl AttributeError, w)
      | Some url \<Rightarrow>
          (let repo_branch = (if truthy branch then the branch else ''master'');
               repo_name = repo_name_of url;
               git_repo_path = path_join (GIT_REPOS_PATH E) repo_name;
               lock_file = repo_name @ ''.lock'';
               w1 = flock_ex lock_file (open_w lock_file w)
           in (case try_body E git_repo_id url repo_branch repo_revision git_repo_path w1 of
                 (Inr _, w2) \<Rightarrow> (Inr (), close_file lock_file (flock_un lock_file w2))
               | (Inl e, w2) \<Rightarrow>
                   (if caught e then (Inr (), close_file lock_file (flock_un lock_file w2))
                    else (Inl e, close_file lock_file w2))))))))"

subsection \<open>\<open>remove_repos_by_id\<close> and \<open>delete_git_repositories\<close>\<close>

text \<open>One iteration of the loop of \<open>remove_repos_by_id\<close>.\<close>

definition remove_repo :: "env \<Rightarrow> jval \<Rightarrow> world \<Rightarrow> (exc + unit) \<times> world" where
  "remove_repo E git_repo w =
     (let git_repo_id = record_key (py_str git_repo)
      in (case r_hmget (redis w) git_repo_id ''url'' of
            Inl e \<Rightarrow> (Inl e, w)
          | Inr repo_url \<Rightarrow>
              (if truthy repo_url
               then (let git_repo_path = path_join (GIT_REPOS_PATH E) (repo_name_of (the repo_url))
                     in (case check_repo_was_cloned git_repo_path git_repo_id w of
                           Inl e \<Rightarrow> (Inl e, w)
                         | Inr cloned \<Rightarrow>
                             (if cloned
                              then (case rmtree git_repo_path (files w) of
                                      Inl e \<Rightarrow> (Inl e, w)
                                    | Inr fs' \<Rightarrow>
                                        (Inr (),
                                         log_ev (EvDelete (the repo_url))
                                          (log_ev (EvDelete git_repo_id)
                                            (log_ev (EvRmTree git_repo_path)
                                              (w\<lparr>files := fs',
                                                 redis := r_delete (r_delete (redis w) git_repo_id)
                                                            (the repo_url)\<rparr>)))))
                              else (Inl (BadRequest (''The repository with id '' @ py_str git_repo
                                                     @ '' is not yet cloned.'')), w))))
               else (Inl (BadRequest (''Could not find an url for repository with a given id ''
                                      @ py_str git_repo @ ''. Repository may not exist.'')), w))))"

fun remove_repos_by_id :: "env \<Rightarrow> jval list \<Rightarrow> world \<Rightarrow> (exc + unit) \<times> world" where
  "remove_repos_by_id E [] w = (Inr (), w)"
| "remove_repos_by_id E (git_repo # rest) w =
     (case remove_repo E git_repo w of
        (Inl e, w') \<Rightarrow> (Inl e, w')
      | (Inr _, w') \<Rightarrow> remove_repos_by_id E rest w')"

text \<open>
  The handler from the decoded request on: \<open>None\<close> is a missing or empty body, \<open>Some
  ids\<close> the list under the key \<open>id\<close> (empty when the key is absent).
\<close>

definition delete_git_repositories :: "env \<Rightarrow> jval list option \<Rightarrow> world \<Rightarrow> (exc + string) \<times> world" where
  "delete_git_repositories E delete_json w =
     (case delete_json of
        None \<Rightarrow> (Inl (BadRequest ''Expected a JSON serialized list of repository id (-s) to be deleted.''), w)
      | Some repo_ids \<Rightarrow>
          (if repo_ids \<noteq> []
           then (case remove_repos_by_id E repo_ids w of
                   (Inl e, w') \<Rightarrow> (Inl e, w')
                 | (Inr _, w') \<Rightarrow> (Inr ''OK'', w'))
           else (Inl (BadRequest ''Expected a JSON serialized list of repository id to delete, e.g. id: [1,2,3]''), w)))"

subsection \<open>\<open>get_git_repositories\<close>\<close>

text \<open>The pipeline of \<open>hgetall\<close> commands; \<open>execute\<close> raises when a command failed.\<close>

fun pipe_hgetall :: "store \<Rightarrow> jval list \<Rightarrow> exc + fields list" where
  "pipe_hgetall r [] = Inr []"
| "pipe_hgetall r (repo_id # rest) =
     (case r_hgetall r (py_str repo_id) of
        Inl e \<Rightarrow> Inl e
      | Inr h \<Rightarrow> (case pipe_hgetall r rest of Inl e \<Rightarrow> Inl e | Inr hs \<Rightarrow> Inr (h # hs)))"

text \<open>
  The handler from the decoded request on: \<open>None\<close> is a missing or empty body, \<open>Some
  ids\<close> the list under the key \<open>id\<close> (empty when the key is absent). The result is the list
  of one-entry dictionaries that the response prints.
\<close>

definition get_git_repositories :: "jval list option \<Rightarrow> world \<Rightarrow> exc + (jval \<times> fields) list" where
  "get_git_repositories get_req_json w =
     (let repo_ids = (case get_req_json of
                        Some ids \<Rightarrow> ids
                      | None \<Rightarrow> map JStr (remove1 counter_key
                                           (r_keys_prefix (redis w) ''git_repo_id:'')))
      in (case pipe_hgetall (redis w) repo_ids of
            Inl e \<Rightarrow> Inl e
          | Inr hs \<Rightarrow> Inr (zip repo_ids hs)))"

section \<open>Derived notions and example states\<close>

text \<open>
  The record keys of the store, computed as the listing branch of \<open>get_git_repositories\<close>
  computes them: the keys under the prefix, without the counter.
\<close>

definition record_keys :: "store \<Rightarrow> string list" where
  "record_keys r = remove1 counter_key (r_keys_prefix r ''git_repo_id:'')"

definition empty_world :: world where
  "empty_world = \<lparr>redis = [], files = [], held = [], trace = []\<rparr>"

definition example_url :: string where
  "example_url = ''https://example.com/r.git''"

text \<open>The state after the first registration of the example url, on branch \<open>main\<close>.\<close>

definition registered_world :: world where
  "registered_world =
     \<lparr>redis = [(''git_repo_id:id'', RStr ''1''),
               (''https://example.com/r.git'', RStr ''git_repo_id:1''),
               (''git_repo_id:1'', RHash [(''url'', ''https://example.com/r.git''), (''branch'', ''main'')])],
      files = [], held = [],
      trace = [EvIncr ''git_repo_id:id'',
               EvGetSet ''https://example.com/r.git'' ''git_repo_id:1'',
               EvHMSet ''git_repo_id:1'' [(''url'', ''https://example.com/r.git''), (''branch'', ''main'')],
               EvSpawn ''git_repo_id:1'']\<rparr>"

text \<open>
  A version-control tool that always succeeds, for the examples: a clone creates the index
  file, a checkout changes nothing, and two files are tracked, one with a blank in its name.
  The validator returns its verdict and never raises.
\<close>

definition demo_env :: env where
  "demo_env =
     \<lparr>home = ''/home/git'',
      strftime_now = ''Thu, 05 Nov 2015 19:10:44'',
      url_validator = (\<lambda>u. Inr (prefix ''https://'' u)),
      git_clone_from = (\<lambda>url p branch fs. (None, AList.update (path_join p ''.git/index'') 120 fs)),
      git_Repo = (\<lambda>p fs. None),
      git_checkout = (\<lambda>p ref fs. (None, fs)),
      git_iter_commits = (\<lambda>p fs. Inr [\<lparr>committer = ''Dmitry Galkin'',
                                          hexsha = ''31e695b60cde8149340303d1e282f194128cc676'',
                                          message = ''init''\<rparr>]),
      git_tracked = (\<lambda>p fs. Inr [''README'', ''a b.txt'']),
      du_sh = (\<lambda>p fs. Inr (''440K'' @ [CHR 0x09] @ p)),
      str_list = (\<lambda>xs. ''['' @ py_join '', '' (map (\<lambda>x. [CHR 0x27] @ x @ [CHR 0x27]) xs) @ '']'')\<rparr>"

text \<open>The example repository, cloned and with a completed checkout.\<close>

definition materialized_world :: world where
  "materialized_world =
     \<lparr>redis = [(''git_repo_id:id'', RStr ''1''),
               (''https://example.com/r.git'', RStr ''git_repo_id:1''),
               (''git_repo_id:1'', RHash [(''url'', ''https://example.com/r.git''), (''branch'', ''main''),
                                          (''total_files'', ''1''),
                                          (''last_checkout'', ''Thu, 05 Nov 2015 19:10:44'')])],
      files = [(''/home/git/git_repositories/r.git/.git/index'', 120),
               (''/home/git/git_repositories/r.git/README'', 10),
               (''r.git.lock'', 0)],
      held = [], trace = []\<rparr>"

text \<open>The example repository while its first clone is running: no \<open>last_checkout\<close> yet.\<close>

definition cloning_world :: world where
  "cloning_world =
     \<lparr>redis = [(''git_repo_id:id'', RStr ''1''),
               (''https://example.com/r.git'', RStr ''git_repo_id:1''),
               (''git_repo_id:1'', RHash [(''url'', ''https://example.com/r.git''), (''branch'', ''main'')])],
      files = [(''/home/git/git_repositories/r.git/.git/index'', 120),
               (''r.git.lock'', 0)],
      held = [], trace = []\<rparr>"


text \<open>The example tool, except that every clone raises \<open>GitCommandError\<close>.\<close>

definition failing_env :: env where
  "failing_env = demo_env\<lparr>git_clone_from := (\<lambda>url p branch fs. (Some GitCommandError, fs))\<rparr>"

subsection \<open>The shape of the stores that the routes build\<close>

text \<open>
  The value of the counter (0 while the counter key is absent), and the invariant of the
  store: keys are distinct; the counter holds the numeral of a number that is not negative;
  every other key under the prefix \<open>git_repo_id:\<close> is the key of an identity between 1 and
  the counter and holds a record whose \<open>url\<close> field, if any, lies outside the prefix; every
  key outside the prefix holds the key of an identity between 1 and the counter.
\<close>

definition counter_of :: "store \<Rightarrow> int" where
  "counter_of r = (case map_of r counter_key of Some (RStr s) \<Rightarrow> int_of_str s | _ \<Rightarrow> 0)"

definition id_in_range :: "int \<Rightarrow> string \<Rightarrow> bool" where
  "id_in_range n k =
     (prefix ''git_repo_id:'' k \<and>
      (case parse_int (drop 12 k) of Some m \<Rightarrow> 1 \<le> m \<and> m \<le> n | None \<Rightarrow> False))"

definition url_outside :: "fields \<Rightarrow> bool" where
  "url_outside h = list_all (\<lambda>fv. \<not> (fst fv = ''url'' \<and> prefix ''git_repo_id:'' (snd fv))) h"

definition entry_ok :: "int \<Rightarrow> string \<times> rval \<Rightarrow> bool" where
  "entry_ok n e =
     (if fst e = counter_key
      then (case snd e of
              RStr s \<Rightarrow> (case parse_int s of Some c \<Rightarrow> 0 \<le> c | None \<Rightarrow> False)
            | RHash h \<Rightarrow> False)
      else if prefix ''git_repo_id:'' (fst e)
      then id_in_range n (fst e) \<and> (case snd e of RHash h \<Rightarrow> url_outside h | RStr s \<Rightarrow> False)
      else (case snd e of RStr s \<Rightarrow> id_in_range n s | RHash h \<Rightarrow> False))"

definition store_inv :: "store \<Rightarrow> bool" where
  "store_inv r = (distinct (map fst r) \<and> list_all (entry_ok (counter_of r)) r)"


text \<open>
  The invariant of the world: the store has that shape, and every process that was started
  was started for the key of an identity between 1 and the counter.
\<close>

definition world_inv :: "world \<Rightarrow> bool" where
  "world_inv w = (store_inv (redis w) \<and>
                  list_all (\<lambda>e. case e of EvSpawn i \<Rightarrow> id_in_range (counter_of (redis w)) i | _ \<Rightarrow> True)
                           (trace w))"

text \<open>
  The worlds that the service reaches from the empty one, its operations taken one at a
  time: a \<open>POST\<close> whose \<open>url\<close> does not begin with the prefix of the record keys, a run of
  the worker for an identity that a process was started for, and a \<open>DELETE\<close>. (A \<open>GET\<close>
  changes nothing.)
\<close>

inductive reachable :: "env \<Rightarrow> world \<Rightarrow> bool" for E :: env where
  start: "reachable E empty_world"
| post: "reachable E w \<Longrightarrow> url_outside repository \<Longrightarrow>
         post_git_repositories E (Some repository) w = (res, w') \<Longrightarrow> reachable E w'"
| work: "reachable E w \<Longrightarrow> EvSpawn i \<in> set (trace w) \<Longrightarrow>
         run_git_clone_or_checkout E i w = (res', w') \<Longrightarrow> reachable E w'"
| remove: "reachable E w \<Longrightarrow>
         delete_git_repositories E delete_json w = (res, w') \<Longrightarrow> reachable E w'"

text \<open>The example repository in a store whose counter has reached the largest integer.\<close>

definition full_counter_world :: world where
  "full_counter_world =
     \<lparr>redis = [(''git_repo_id:id'', RStr ''9223372036854775807''),
               (''https://example.com/r.git'', RStr ''git_repo_id:1''),
               (''git_repo_id:1'', RHash [(''url'', ''https://example.com/r.git''), (''branch'', ''main''),
                                          (''total_files'', ''1''),
                                          (''last_checkout'', ''Thu, 05 Nov 2015 19:10:44'')])],
      files = [(''/home/git/git_repositories/r.git/.git/index'', 120),
               (''/home/git/git_repositories/r.git/README'', 10),
               (''r.git.lock'', 0)],
      held = [], trace = []\<rparr>"
section \<open>Facts about decimal numerals\<close>

lemma of_char_digit_char: "d < 10 \<Longrightarrow> of_char (digit_char d) = 48 + d"
  by (simp add: digit_char_def)

lemma digit_val_digit_char: "d < 10 \<Longrightarrow> digit_val (digit_char d) = d"
  by (simp add: digit_val_def of_char_digit_char)

lemma digit_char_not_minus: "d < 10 \<Longrightarrow> digit_char d \<noteq> CHR ''-''"
proof
  assume d: "d < 10" and eq: "digit_char d = CHR ''-''"
  have "of_char (digit_char d) = (of_char CHR ''-'' :: nat)" by (simp only: eq)
  with d show False by (simp add: of_char_digit_char)
qed

lemma digit_char_not_colon: "d < 10 \<Longrightarrow> digit_char d \<noteq> CHR '':''"
proof
  assume d: "d < 10" and eq: "digit_char d = CHR '':''"
  have "of_char (digit_char d) = (of_char CHR '':'' :: nat)" by (simp only: eq)
  with d show False by (simp add: of_char_digit_char)
qed

lemma nat_of_digits_snoc: "nat_of_digits (s @ [c]) = 10 * nat_of_digits s + digit_val c"
  by (simp add: nat_of_digits_def)

lemma nat_of_digits_str_nat: "nat_of_digits (str_nat n) = n"
proof (induction n rule: str_nat.induct)
  case (1 n)
  show ?case
  proof (cases "n < 10")
    case True
    then show ?thesis
      by (simp add: str_nat.simps [of n] nat_of_digits_def digit_val_digit_char)
  next
    case False
    with 1 have "nat_of_digits (str_nat (n div 10)) = n div 10" by simp
    with False show ?thesis
      by (simp add: str_nat.simps [of n] nat_of_digits_snoc digit_val_digit_char)
  qed
qed

lemma str_nat_chars: "c \<in> set (str_nat n) \<Longrightarrow> c \<noteq> CHR ''-'' \<and> c \<noteq> CHR '':''"
proof (induction n rule: str_nat.induct)
  case (1 n)
  show ?case
  proof (cases "n < 10")
    case True
    with 1(2) show ?thesis
      by (auto simp: str_nat.simps [of n] digit_char_not_minus digit_char_not_colon)
  next
    case False
    with 1 show ?thesis
      by (auto simp: str_nat.simps [of n] digit_char_not_minus digit_char_not_colon)
  qed
qed

lemma str_nat_nonempty: "str_nat n \<noteq> []"
  by (subst str_nat.simps) simp

lemma int_of_str_str_int: "int_of_str (str_int i) = i"
proof (cases "i < 0")
  case True
  then show ?thesis by (simp add: int_of_str_def str_int_def nat_of_digits_str_nat)
next
  case False
  obtain c cs where s: "str_nat (nat i) = c # cs"
    using str_nat_nonempty [of "nat i"] by (cases "str_nat (nat i)") auto
  then have "c \<in> set (str_nat (nat i))" by simp
  then have "c \<noteq> CHR ''-''" using str_nat_chars by blast
  moreover have "nat_of_digits (c # cs) = nat i" using nat_of_digits_str_nat [of "nat i"] s by simp
  ultimately show ?thesis using False s by (simp add: int_of_str_def str_int_def)
qed

lemma str_int_inj: "str_int i = str_int j \<Longrightarrow> i = j"
  using int_of_str_str_int by metis

lemma parse_int_str_int:
  "- INT64_MAX - 1 \<le> n \<Longrightarrow> n \<le> INT64_MAX \<Longrightarrow> parse_int (str_int n) = Some n"
  by (simp add: parse_int_def int_of_str_str_int)

lemma str_int_no_colon: "CHR '':'' \<notin> set (str_int n)"
  using str_nat_chars by (auto simp: str_int_def)


section \<open>Facts about the store operations\<close>

lemma keys_update_present: "map_of al k = Some v0 \<Longrightarrow> map fst (AList.update k v al) = map fst al"
  by (simp add: update_keys map_of_eq_None_iff [symmetric] del: map_of_eq_None_iff)

lemma r_get_Some: "r_get r k = Inr (Some s) \<longleftrightarrow> map_of r k = Some (RStr s)"
  by (auto simp: r_get_def split: option.splits rval.splits)

lemma r_hmset_Inr:
  "r_hmset r k m = Inr r' \<Longrightarrow>
     m \<noteq> [] \<and> (\<forall>s. map_of r k \<noteq> Some (RStr s)) \<and>
     (\<exists>h. map_of r' k = Some (RHash h)) \<and> (\<forall>k'. k' \<noteq> k \<longrightarrow> map_of r' k' = map_of r k')"
  by (auto simp: r_hmset_def update_conv' split: if_splits option.splits rval.splits)

lemma r_hmset_hash:
  "map_of r k = Some (RHash h) \<Longrightarrow> m \<noteq> [] \<Longrightarrow>
     r_hmset r k m = Inr (AList.update k (RHash (AList.updates (map fst m) (map snd m) h)) r)"
  by (simp add: r_hmset_def)

lemma record_key_nonempty: "record_key s \<noteq> []"
  by (simp add: record_key_def)

lemma map_of_rev_distinct: "distinct (map fst xs) \<Longrightarrow> map_of (rev xs) = map_of xs"
proof (induction xs)
  case Nil
  then show ?case by simp
next
  case (Cons x xs)
  then have "fst x \<notin> fst ` set xs" and IH: "map_of (rev xs) = map_of xs" by auto
  then have "map_of xs (fst x) = None" by (simp add: map_of_eq_None_iff)
  then show ?case
    by (cases x) (auto simp: IH map_add_def fun_eq_iff split: option.splits)
qed

lemma updates_lookup:
  "distinct (map fst m) \<Longrightarrow>
   map_of (AList.updates (map fst m) (map snd m) h) f =
     (case map_of m f of Some v \<Rightarrow> Some v | None \<Rightarrow> map_of h f)"
  by (simp add: updates_conv' map_upds_def zip_map_fst_snd map_add_def map_of_rev_distinct split: option.splits)

section \<open>Registration: \<open>clone_checkout_git_repository\<close>\<close>

lemma first_registration:
  "clone_checkout_git_repository example_url [(''url'', example_url), (''branch'', ''main'')] empty_world
     = (Inr ''git_repo_id:1'', registered_world)"
  by code_simp

text \<open>A call for a url that is already mapped goes straight to the write of the fields.\<close>

lemma cc_known:
  "r_get (redis w) url = Inr (Some i) \<Longrightarrow> i \<noteq> [] \<Longrightarrow>
   clone_checkout_git_repository url r w =
     (case r_hmset (redis w) i r of
        Inl e \<Rightarrow> (Inl e, w)
      | Inr r3 \<Rightarrow> (Inr i, log_ev (EvSpawn i) (log_ev (EvHMSet i r) (w\<lparr>redis := r3\<rparr>))))"
  by (simp add: clone_checkout_git_repository_def truthy_def)

text \<open>After a successful call the url is mapped to the returned id, and the id holds a record.\<close>

lemma cc_success_mapping:
  assumes "clone_checkout_git_repository url r w = (Inr i, w1)"
  shows "r_get (redis w1) url = Inr (Some i) \<and> i \<noteq> [] \<and> (\<exists>h. map_of (redis w1) i = Some (RHash h))"
  using assms
  unfolding clone_checkout_git_repository_def
  by (auto simp: log_ev_def truthy_def r_get_Some r_getset_def r_incr_def Let_def record_key_nonempty
      update_conv'
      split: sum.splits option.splits if_splits prod.splits rval.splits dest!: r_hmset_Inr)

section \<open>Removal: \<open>remove_repos_by_id\<close>\<close>



lemma remove_repo_fail_unchanged: "remove_repo E g w = (Inl e, w') \<Longrightarrow> w' = w"
  by (auto simp: remove_repo_def Let_def split: sum.splits if_splits)

lemma remove_repos_by_id_append:
  "remove_repos_by_id E (xs @ ys) w =
     (case remove_repos_by_id E xs w of
        (Inl e, w') \<Rightarrow> (Inl e, w')
      | (Inr u, w') \<Rightarrow> remove_repos_by_id E ys w')"
  by (induction xs arbitrary: w) (auto split: prod.splits sum.splits)




lemma rmtree_clears:
  "rmtree d fs = Inr fs' \<Longrightarrow> \<not> list_ex (\<lambda>q. is_under d (fst q)) fs'"
  by (auto simp: rmtree_def list_ex_iff split: if_splits)



subsection \<open>The worker: what each step leaves alone\<close>

lemma do_checkout_frame:
  "do_checkout E p ref w = (res, w') \<Longrightarrow>
     redis w' = redis w \<and> held w' = held w \<and> trace w' = trace w @ [EvCheckout p ref]"
  by (auto simp: do_checkout_def log_ev_def split: prod.splits)

lemma do_clone_frame:
  "do_clone E url p b w = (res, w') \<Longrightarrow>
     redis w' = redis w \<and> held w' = held w \<and> trace w' = trace w @ [EvClone url p b]"
  by (auto simp: do_clone_def log_ev_def split: prod.splits)

lemma update_repo_stats_frame:
  "update_repo_stats E k p w = (res, w') \<Longrightarrow>
     held w' = held w \<and> files w' = files w \<and>
     ((\<exists>e. res = Inl e \<and> w' = w) \<or>
      (\<exists>stats. res = Inr () \<and> r_hmset (redis w) k stats = Inr (redis w')
          \<and> trace w' = trace w @ [EvHMSet k stats]
          \<and> distinct (map fst stats)
          \<and> map_of stats ''last_checkout'' = Some (strftime_now E)))"
  by (auto simp: update_repo_stats_def log_ev_def Let_def repo_stats_of_def
           split: sum.splits list.splits)

lemma checkout_existing_frame:
  "checkout_existing E k p b w = (res, w') \<Longrightarrow>
     held w' = held w \<and> (\<exists>evs. trace w' = trace w @ evs)"
  by (auto simp: checkout_existing_def log_ev_def Let_def
           split: sum.splits option.splits dest!: do_checkout_frame)

lemma try_body_frame:
  assumes "try_body E k url b rv p w = (res, w')"
  shows "held w' = held w \<and> (\<exists>evs. trace w' = trace w @ evs)"
proof (cases "check_repo_was_cloned p k w")
  case (Inl e)
  with assms show ?thesis by (simp add: try_body_def)
next
  case (Inr cloned)
  obtain r1 w1 where s1: "(if cloned then checkout_existing E k p b w else do_clone E url p b w) = (r1, w1)"
    by (cases "if cloned then checkout_existing E k p b w else do_clone E url p b w") auto
  have f1: "held w1 = held w \<and> (\<exists>evs. trace w1 = trace w @ evs)"
    using s1 by (auto split: if_splits dest!: checkout_existing_frame do_clone_frame)
  show ?thesis
  proof (cases r1)
    case (Inl e)
    with assms Inr s1 f1 show ?thesis by (simp add: try_body_def)
  next
    case r1: (Inr u)
    obtain r2 w2 where s2: "(if truthy rv then do_checkout E p (the rv) w1 else (Inr (), w1)) = (r2, w2)"
      by (cases "if truthy rv then do_checkout E p (the rv) w1 else (Inr (), w1)") auto
    have f2: "held w2 = held w1 \<and> (\<exists>evs. trace w2 = trace w1 @ evs)"
      using s2 by (auto split: if_splits dest!: do_checkout_frame)
    show ?thesis
    proof (cases r2)
      case (Inl e)
      with assms Inr s1 r1 s2 f1 f2 show ?thesis by (auto simp: try_body_def)
    next
      case r2: (Inr u2)
      have "update_repo_stats E k p w2 = (res, w')"
        using assms Inr s1 r1 s2 r2 by (simp add: try_body_def)
      from update_repo_stats_frame [OF this] have "held w' = held w2 \<and> (\<exists>evs. trace w' = trace w2 @ evs)"
        by auto
      with f1 f2 show ?thesis by auto
    qed
  qed
qed

lemma hmset_then_hmget:
  "r_hmset r k m = Inr r' \<Longrightarrow> distinct (map fst m) \<Longrightarrow> map_of m f = Some v \<Longrightarrow>
   r_hmget r' k f = Inr (Some v)"
  by (auto simp: r_hmset_def r_hmget_def update_conv' updates_lookup
           split: if_splits option.splits rval.splits)

lemma r_hmget_same_key:
  "r_hmget r k f = Inr v \<Longrightarrow> \<exists>v'. r_hmget r k f' = Inr v'"
  by (auto simp: r_hmget_def split: option.splits rval.splits)

subsection \<open>The worker on a materialized working copy\<close>

lemma index_not_lock: "path_join p ''.git/index'' \<noteq> n @ ''.lock''"
proof
  assume eq: "path_join p ''.git/index'' = n @ ''.lock''"
  have "last (path_join p ''.git/index'') = CHR ''x''" by (simp add: path_join_def)
  moreover have "last (n @ ''.lock'') = CHR ''k''" by simp
  ultimately show False using eq by simp
qed

lemma check_repo_was_cloned_locked:
  "check_repo_was_cloned p k (flock_ex (n @ ''.lock'') (open_w (n @ ''.lock'') w))
     = check_repo_was_cloned p k w"
  using index_not_lock [of p n]
  by (simp add: check_repo_was_cloned_def flock_ex_def open_w_def log_ev_def Let_def
        path_exists_def st_size_def update_conv')

lemma r_hdel_last_checkout:
  assumes rec: "map_of r k = Some (RHash h)" and url: "map_of h ''url'' = Some url"
  shows "r_hdel r k ''last_checkout''
           = Inr (AList.update k (RHash (AList.delete ''last_checkout'' h)) r)"
    and "r_hmget (AList.update k (RHash (AList.delete ''last_checkout'' h)) r) k ''last_checkout''
           = Inr None"
proof -
  have kept: "map_of (AList.delete ''last_checkout'' h) ''url'' = Some url"
    using url by (simp add: delete_conv')
  have "AList.delete ''last_checkout'' h \<noteq> []"
  proof
    assume empty: "AList.delete ''last_checkout'' h = []"
    from kept [unfolded empty] show False by simp
  qed
  then show "r_hdel r k ''last_checkout''
           = Inr (AList.update k (RHash (AList.delete ''last_checkout'' h)) r)"
    using rec by (simp add: r_hdel_def Let_def)
  show "r_hmget (AList.update k (RHash (AList.delete ''last_checkout'' h)) r) k ''last_checkout''
           = Inr None"
    by (simp add: r_hmget_def update_conv' delete_conv')
qed

lemma checkout_existing_steps:
  assumes hd: "r_hdel (redis w) k ''last_checkout'' = Inr r1"
    and ce: "checkout_existing E k p b w = (res, w')"
  shows "redis w' = r1 \<and> held w' = held w \<and>
     (res = Inr () \<and> trace w' = trace w @ [EvHDel k ''last_checkout'', EvCheckout p b]
      \<or> (\<exists>e. res = Inl e) \<and>
        (trace w' = trace w @ [EvHDel k ''last_checkout'']
         \<or> trace w' = trace w @ [EvHDel k ''last_checkout'', EvCheckout p b]))"
  using ce hd
  by (auto simp: checkout_existing_def log_ev_def Let_def do_checkout_def
           split: option.splits prod.splits)

lemma try_body_update:
  assumes chk: "check_repo_was_cloned p k w = Inr True"
    and hd: "r_hdel (redis w) k ''last_checkout'' = Inr r1"
    and tb: "try_body E k url b rv p w = (tres, w2)"
  shows "held w2 = held w \<and>
     ((\<exists>stats. tres = Inr ()
         \<and> trace w2 = trace w @ [EvHDel k ''last_checkout'', EvCheckout p b]
              @ (if truthy rv then [EvCheckout p (the rv)] else []) @ [EvHMSet k stats]
         \<and> distinct (map fst stats)
         \<and> map_of stats ''last_checkout'' = Some (strftime_now E)
         \<and> r_hmset r1 k stats = Inr (redis w2))
      \<or> (\<exists>e evs. tres = Inl e
         \<and> prefix evs (EvCheckout p b # (if truthy rv then [EvCheckout p (the rv)] else []))
         \<and> trace w2 = trace w @ EvHDel k ''last_checkout'' # evs
         \<and> redis w2 = r1))"
proof -
  obtain c1 w1 where s1: "checkout_existing E k p b w = (c1, w1)"
    by (cases "checkout_existing E k p b w") auto
  note f1 = checkout_existing_steps [OF hd s1]
  show ?thesis
  proof (cases c1)
    case (Inl e)
    then have "tres = Inl e" "w2 = w1" using tb chk s1 by (simp_all add: try_body_def)
    with f1 Inl show ?thesis by auto
  next
    case c1: (Inr u)
    with f1 have t1: "trace w1 = trace w @ [EvHDel k ''last_checkout'', EvCheckout p b]"
      and r1: "redis w1 = r1" and h1: "held w1 = held w" by auto
    obtain c2 w3 where s2: "(if truthy rv then do_checkout E p (the rv) w1 else (Inr (), w1)) = (c2, w3)"
      by (cases "if truthy rv then do_checkout E p (the rv) w1 else (Inr (), w1)") auto
    have f2: "redis w3 = r1 \<and> held w3 = held w \<and>
        trace w3 = trace w @ [EvHDel k ''last_checkout'', EvCheckout p b]
              @ (if truthy rv then [EvCheckout p (the rv)] else [])"
      using s2 t1 r1 h1 by (auto split: if_splits dest!: do_checkout_frame)
    show ?thesis
    proof (cases c2)
      case (Inl e)
      then have "tres = Inl e" "w2 = w3" using tb chk s1 c1 s2 by (simp_all add: try_body_def)
      with f2 show ?thesis by auto
    next
      case c2: (Inr u2)
      have us: "update_repo_stats E k p w3 = (tres, w2)"
        using tb chk s1 c1 s2 c2 by (simp add: try_body_def)
      from update_repo_stats_frame [OF us] f2 show ?thesis by auto
    qed
  qed
qed

subsection \<open>Reading records\<close>

lemma pipe_hgetall_absent:
  "(\<And>g. g \<in> set ids \<Longrightarrow> map_of r (py_str g) = None) \<Longrightarrow>
   pipe_hgetall r ids = Inr (map (\<lambda>_. []) ids)"
  by (induction ids) (simp_all add: r_hgetall_def)

subsection \<open>Counting the tracked files\<close>

lemma split_ws_from_word:
  "\<forall>c \<in> set p. \<not> is_space c \<Longrightarrow> split_ws_from cur (p @ xs) = split_ws_from (rev p @ cur) xs"
  by (induction p arbitrary: cur) simp_all

lemma split_ws_lines:
  "\<forall>p \<in> set ps. p \<noteq> [] \<and> (\<forall>c \<in> set p. \<not> is_space c) \<Longrightarrow>
   split_ws_from [] (py_join [CHR 0x0A] ps) = ps"
proof (induction ps)
  case Nil
  then show ?case by simp
next
  case (Cons x ys)
  then have x: "x \<noteq> []" "\<forall>c \<in> set x. \<not> is_space c" by auto
  show ?case
  proof (cases ys)
    case Nil
    have "split_ws_from [] (x @ []) = split_ws_from (rev x @ []) []"
      by (rule split_ws_from_word [OF x(2)])
    with x(1) Nil show ?thesis by simp
  next
    case (Cons y zs)
    have "split_ws_from [] (x @ CHR 0x0A # py_join [CHR 0x0A] (y # zs))
            = split_ws_from (rev x @ []) (CHR 0x0A # py_join [CHR 0x0A] (y # zs))"
      by (rule split_ws_from_word [OF x(2)])
    also have "\<dots> = x # split_ws_from [] (py_join [CHR 0x0A] (y # zs))"
      using x(1) by (simp add: is_space_def)
    finally show ?thesis using Cons Cons.IH Cons.prems by simp
  qed
qed

lemma total_files_exact_without_whitespace:
  "\<forall>p \<in> set ps. p \<noteq> [] \<and> (\<forall>c \<in> set p. \<not> is_space c) \<Longrightarrow>
   length (py_split (py_join [CHR 0x0A] ps)) = length ps"
  by (simp add: py_split_def split_ws_lines)

section \<open>The shape of the store is an invariant\<close>

lemma parse_int_id: "parse_int ''id'' = None"
  by code_simp

lemma counter_key_not_in_range: "\<not> id_in_range n counter_key"
  by (simp add: id_in_range_def counter_key_def parse_int_id)

lemma counter_key_prefix: "prefix ''git_repo_id:'' counter_key"
  by (simp add: counter_key_def)

lemma in_range_prefix: "id_in_range n k \<Longrightarrow> prefix ''git_repo_id:'' k"
  by (simp add: id_in_range_def)

lemma in_range_mono: "id_in_range n k \<Longrightarrow> n \<le> n' \<Longrightarrow> id_in_range n' k"
  by (auto simp: id_in_range_def split: option.splits)

lemma parse_int_Some: "parse_int s = Some m \<Longrightarrow> s = str_int m \<and> int_of_str s = m"
  by (auto simp: parse_int_def Let_def split: if_splits)

lemma in_range_record_key:
  "id_in_range n (record_key (str_int m)) \<Longrightarrow> 1 \<le> m \<and> m \<le> n"
  by (auto simp: id_in_range_def record_key_def split: option.splits
           dest!: parse_int_Some dest: str_int_inj)

lemma in_range_new:
  "1 \<le> m \<Longrightarrow> m \<le> INT64_MAX \<Longrightarrow> m \<le> n \<Longrightarrow> id_in_range n (record_key (str_int m))"
  by (simp add: id_in_range_def record_key_def parse_int_str_int INT64_MAX_def)

lemma entry_ok_mono: "entry_ok n e \<Longrightarrow> n \<le> n' \<Longrightarrow> entry_ok n' e"
  by (auto simp: entry_ok_def split: if_splits rval.splits intro: in_range_mono)

lemma store_inv_iff:
  "store_inv r \<longleftrightarrow>
     distinct (map fst r) \<and> (\<forall>k v. map_of r k = Some v \<longrightarrow> entry_ok (counter_of r) (k, v))"
  by (auto simp: store_inv_def list_all_iff dest: map_of_SomeD)

lemma counter_of_cong: "map_of r' counter_key = map_of r counter_key \<Longrightarrow> counter_of r' = counter_of r"
  by (simp add: counter_of_def)

lemma inv_delete:
  assumes "store_inv r" and "k \<noteq> counter_key"
  shows "store_inv (AList.delete k r) \<and> counter_of (AList.delete k r) = counter_of r"
proof -
  have c: "counter_of (AList.delete k r) = counter_of r"
    using assms(2) by (intro counter_of_cong) (simp add: delete_conv')
  show ?thesis using assms c
    by (auto simp: store_inv_iff distinct_delete delete_conv' split: if_splits)
qed

lemma inv_update:
  assumes "store_inv r" and "k \<noteq> counter_key" and "entry_ok (counter_of r) (k, v)"
  shows "store_inv (AList.update k v r) \<and> counter_of (AList.update k v r) = counter_of r"
proof -
  have c: "counter_of (AList.update k v r) = counter_of r"
    using assms(2) by (intro counter_of_cong) (simp add: update_conv')
  show ?thesis using assms c
    by (auto simp: store_inv_iff distinct_update update_conv' split: if_splits)
qed

lemma url_outside_delete: "url_outside h \<Longrightarrow> url_outside (AList.delete f h)"
  by (induction h) (auto simp: url_outside_def)

lemma url_outside_update:
  "url_outside h \<Longrightarrow> \<not> (f = ''url'' \<and> prefix ''git_repo_id:'' v) \<Longrightarrow> url_outside (AList.update f v h)"
  by (induction h) (auto simp: url_outside_def)

lemma url_outside_updates:
  "url_outside h \<Longrightarrow> url_outside m \<Longrightarrow> url_outside (AList.updates (map fst m) (map snd m) h)"
proof (induction m arbitrary: h)
  case Nil
  then show ?case by simp
next
  case (Cons a m)
  from Cons.prems have a: "\<not> (fst a = ''url'' \<and> prefix ''git_repo_id:'' (snd a))" and m: "url_outside m"
    by (simp_all add: url_outside_def)
  have "url_outside (AList.update (fst a) (snd a) h)"
    using Cons.prems(1) a by (rule url_outside_update)
  from Cons.IH [OF this m] show ?case by simp
qed

lemma store_inv_record:
  assumes "store_inv r" and "id_in_range n k" and "map_of r k = Some v"
  shows "\<exists>h. v = RHash h \<and> url_outside h"
proof -
  have "k \<noteq> counter_key" using assms(2) counter_key_not_in_range by auto
  moreover have "prefix ''git_repo_id:'' k" using assms(2) by (rule in_range_prefix)
  moreover have "entry_ok (counter_of r) (k, v)" using assms(1,3) by (simp add: store_inv_iff)
  ultimately show ?thesis by (auto simp: entry_ok_def split: rval.splits)
qed

lemma store_inv_url:
  assumes "store_inv r" and "\<not> prefix ''git_repo_id:'' u" and "map_of r u = Some v"
  shows "\<exists>s. v = RStr s \<and> id_in_range (counter_of r) s"
proof -
  have "u \<noteq> counter_key" using assms(2) counter_key_prefix by auto
  moreover have "entry_ok (counter_of r) (u, v)" using assms(1,3) by (simp add: store_inv_iff)
  ultimately show ?thesis using assms(2) by (auto simp: entry_ok_def split: rval.splits)
qed

lemma str_int_not_id: "str_int m \<noteq> ''id''"
proof
  assume eq: "str_int m = ''id''"
  have "int_of_str (str_int m) = m" by (rule int_of_str_str_int)
  then have "m = int_of_str ''id''" by (simp add: eq)
  with eq have "str_int (int_of_str ''id'') = ''id''" by simp
  moreover have "str_int (int_of_str ''id'') \<noteq> ''id''" by code_simp
  ultimately show False by simp
qed

lemma store_inv_fresh:
  assumes "store_inv r" and "counter_of r < m"
  shows "map_of r (record_key (str_int m)) = None"
proof (rule ccontr)
  assume "map_of r (record_key (str_int m)) \<noteq> None"
  then obtain v where v: "map_of r (record_key (str_int m)) = Some v" by auto
  have ne: "record_key (str_int m) \<noteq> counter_key"
    by (simp add: record_key_def counter_key_def str_int_not_id)
  have "entry_ok (counter_of r) (record_key (str_int m), v)"
    using assms(1) v by (simp add: store_inv_iff)
  then have "id_in_range (counter_of r) (record_key (str_int m))"
    using ne by (auto simp: entry_ok_def record_key_def split: if_splits)
  from in_range_record_key [OF this] assms(2) show False by simp
qed

lemma inv_hmset:
  assumes inv: "store_inv r" and k: "id_in_range (counter_of r) k" and m: "url_outside m"
    and set: "r_hmset r k m = Inr r'"
  shows "store_inv r' \<and> counter_of r' = counter_of r"
proof -
  have ne: "k \<noteq> counter_key" using k counter_key_not_in_range by auto
  have pre: "prefix ''git_repo_id:'' k" using k by (rule in_range_prefix)
  have empty: "url_outside []" by (simp add: url_outside_def)
  show ?thesis
  proof (cases "map_of r k")
    case None
    with set have r': "r' = AList.update k (RHash (AList.updates (map fst m) (map snd m) [])) r"
      by (simp add: r_hmset_def split: if_splits)
    have "entry_ok (counter_of r) (k, RHash (AList.updates (map fst m) (map snd m) []))"
      using ne pre k url_outside_updates [OF empty m] by (simp add: entry_ok_def)
    from inv_update [OF inv ne this] r' show ?thesis by simp
  next
    case (Some v)
    from store_inv_record [OF inv k Some] obtain h where h: "v = RHash h" "url_outside h" by blast
    with set Some have r': "r' = AList.update k (RHash (AList.updates (map fst m) (map snd m) h)) r"
      by (simp add: r_hmset_def split: if_splits)
    have "entry_ok (counter_of r) (k, RHash (AList.updates (map fst m) (map snd m) h))"
      using ne pre k url_outside_updates [OF h(2) m] by (simp add: entry_ok_def)
    from inv_update [OF inv ne this] r' show ?thesis by simp
  qed
qed

lemma inv_hdel:
  assumes inv: "store_inv r" and k: "id_in_range (counter_of r) k"
    and del: "r_hdel r k f = Inr r'"
  shows "store_inv r' \<and> counter_of r' = counter_of r"
proof -
  have ne: "k \<noteq> counter_key" using k counter_key_not_in_range by auto
  have pre: "prefix ''git_repo_id:'' k" using k by (rule in_range_prefix)
  show ?thesis
  proof (cases "map_of r k")
    case None
    with del inv show ?thesis by (simp add: r_hdel_def)
  next
    case (Some v)
    from store_inv_record [OF inv k Some] obtain h where h: "v = RHash h" "url_outside h" by blast
    have "entry_ok (counter_of r) (k, RHash (AList.delete f h))"
      using ne pre k url_outside_delete [OF h(2)] by (simp add: entry_ok_def)
    from inv_update [OF inv ne this] inv_delete [OF inv ne] del Some h(1)
    show ?thesis by (auto simp: r_hdel_def Let_def split: if_splits)
  qed
qed

lemma inv_getset:
  assumes inv: "store_inv r" and u: "\<not> prefix ''git_repo_id:'' u"
    and v: "id_in_range (counter_of r) v" and gs: "r_getset r u v = Inr (old, r')"
  shows "store_inv r' \<and> counter_of r' = counter_of r"
proof -
  have ne: "u \<noteq> counter_key" using u counter_key_prefix by auto
  have "entry_ok (counter_of r) (u, RStr v)" using ne u v by (simp add: entry_ok_def)
  from inv_update [OF inv ne this] gs show ?thesis
    by (auto simp: r_getset_def split: option.splits rval.splits)
qed

section \<open>The claims\<close>

text \<open>
  C1. Calling the registration a second time for the same url returns the identity of the
  first call, and the store still holds one record for the url: the second call finds the
  url-to-id mapping, adds no key to the store, changes no key other than the record itself,
  and performs no increment of the counter (its only effects are the write of the fields and
  the start of the worker). The second request must carry at least one field, as every
  request that reaches the function does (it carries \<open>url\<close>).
\<close>

theorem resolve_twice:
  assumes first: "clone_checkout_git_repository url r1 w = (Inr i1, w1)" and r2: "r2 \<noteq> []"
  shows "\<exists>w2. clone_checkout_git_repository url r2 w1 = (Inr i1, w2)
       \<and> r_get (redis w2) url = Inr (Some i1)
       \<and> map fst (redis w2) = map fst (redis w1)
       \<and> (\<forall>k. k \<noteq> i1 \<longrightarrow> map_of (redis w2) k = map_of (redis w1) k)
       \<and> trace w2 = trace w1 @ [EvHMSet i1 r2, EvSpawn i1]"
proof -
  from cc_success_mapping [OF first]
  obtain h where known: "r_get (redis w1) url = Inr (Some i1)" and ne: "i1 \<noteq> []"
    and rec: "map_of (redis w1) i1 = Some (RHash h)" by blast
  let ?r3 = "AList.update i1 (RHash (AList.updates (map fst r2) (map snd r2) h)) (redis w1)"
  let ?w2 = "log_ev (EvSpawn i1) (log_ev (EvHMSet i1 r2) (w1\<lparr>redis := ?r3\<rparr>))"
  have call: "clone_checkout_git_repository url r2 w1 = (Inr i1, ?w2)"
    by (simp add: cc_known [OF known ne] r_hmset_hash [OF rec r2])
  have url_ne: "url \<noteq> i1"
    using known rec by (auto simp: r_get_Some)
  have "r_get (redis ?w2) url = Inr (Some i1)"
    using known url_ne by (simp add: log_ev_def r_get_def update_conv')
  moreover have "map fst (redis ?w2) = map fst (redis w1)"
    by (simp add: log_ev_def keys_update_present [OF rec])
  moreover have "\<forall>k. k \<noteq> i1 \<longrightarrow> map_of (redis ?w2) k = map_of (redis w1) k"
    by (simp add: log_ev_def update_conv')
  moreover have "trace ?w2 = trace w1 @ [EvHMSet i1 r2, EvSpawn i1]"
    by (simp add: log_ev_def)
  ultimately show ?thesis using call by blast
qed

theorem resolve_twice_witness:
  "fst (clone_checkout_git_repository example_url [(''url'', example_url), (''branch'', ''dev'')]
          (snd (clone_checkout_git_repository example_url
                  [(''url'', example_url), (''branch'', ''main'')] empty_world)))
     = Inr ''git_repo_id:1''
   \<and> record_keys (redis (snd (clone_checkout_git_repository example_url
          [(''url'', example_url), (''branch'', ''dev'')]
          (snd (clone_checkout_git_repository example_url
                  [(''url'', example_url), (''branch'', ''main'')] empty_world)))))
     = [''git_repo_id:1'']"
proof -
  have r2: "[(''url'', example_url), (''branch'', ''dev'')] \<noteq> []" by simp
  from resolve_twice [OF first_registration r2]
  obtain w2 where call: "clone_checkout_git_repository example_url
        [(''url'', example_url), (''branch'', ''dev'')] registered_world = (Inr ''git_repo_id:1'', w2)"
    and keys: "map fst (redis w2) = map fst (redis registered_world)" by blast
  have "record_keys (redis registered_world) = [''git_repo_id:1'']" by code_simp
  then have "record_keys (redis w2) = [''git_repo_id:1'']"
    using keys by (simp add: record_keys_def r_keys_prefix_def)
  then show ?thesis using call by (simp add: first_registration)
qed

text \<open>
  C2. A run of the worker on a record whose working copy is materialized (the index file
  exists and is not empty, and the record has a \<open>last_checkout\<close>) first deletes the field
  \<open>last_checkout\<close> of the record, then checks out the branch of the record (\<open>master\<close> when
  it has none), then the revision if the record has one, and only then writes the stats,
  which carry the current time as \<open>last_checkout\<close>. These are the only writes to the store:
  from the deletion on the store is \<open>r1\<close>, in which the record has no \<open>last_checkout\<close>, until
  the stats are written into it. When the body of the \<open>try\<close> block raises, the run stops
  after a prefix of the checkouts, the stats are not written and the store stays \<open>r1\<close>.
\<close>

theorem update_clears_last_checkout_first:
  assumes rec: "map_of (redis w) i = Some (RHash h)"
    and url: "map_of h ''url'' = Some url"
    and mat: "check_repo_was_cloned (path_join (GIT_REPOS_PATH E) (repo_name_of url)) i w = Inr True"
  shows "let p = path_join (GIT_REPOS_PATH E) (repo_name_of url);
             l = repo_name_of url @ ''.lock'';
             b = (if truthy (map_of h ''branch'') then the (map_of h ''branch'') else ''master'');
             rv = map_of h ''revision'';
             revs = (if truthy rv then [EvCheckout p (the rv)] else []);
             r1 = AList.update i (RHash (AList.delete ''last_checkout'' h)) (redis w)
         in r_hdel (redis w) i ''last_checkout'' = Inr r1
          \<and> r_hmget r1 i ''last_checkout'' = Inr None
          \<and> (\<exists>res w' tres w2.
               run_git_clone_or_checkout E i w = (res, w')
             \<and> try_body E i url b rv p (flock_ex l (open_w l w)) = (tres, w2)
             \<and> ((\<exists>stats. tres = Inr () \<and> res = Inr ()
                   \<and> trace w' = trace w @ [EvOpen l, EvLockEx l, EvHDel i ''last_checkout'',
                                            EvCheckout p b] @ revs
                                          @ [EvHMSet i stats, EvLockUn l, EvClose l]
                   \<and> map_of stats ''last_checkout'' = Some (strftime_now E)
                   \<and> r_hmset r1 i stats = Inr (redis w')
                   \<and> r_hmget (redis w') i ''last_checkout'' = Inr (Some (strftime_now E)))
                \<or> (\<exists>e evs closing. tres = Inl e
                   \<and> prefix evs (EvCheckout p b # revs)
                   \<and> (closing = [EvLockUn l, EvClose l] \<or> closing = [EvClose l])
                   \<and> trace w' = trace w @ [EvOpen l, EvLockEx l, EvHDel i ''last_checkout'']
                                          @ evs @ closing
                   \<and> redis w' = r1)))"
proof -
  let ?p = "path_join (GIT_REPOS_PATH E) (repo_name_of url)"
  let ?l = "repo_name_of url @ ''.lock''"
  let ?b = "if truthy (map_of h ''branch'') then the (map_of h ''branch'') else ''master''"
  let ?rv = "map_of h ''revision''"
  let ?revs = "if truthy ?rv then [EvCheckout ?p (the ?rv)] else []"
  let ?r1 = "AList.update i (RHash (AList.delete ''last_checkout'' h)) (redis w)"
  let ?w1 = "flock_ex ?l (open_w ?l w)"
  note hd = r_hdel_last_checkout [OF rec url]
  have hm: "r_hmget (redis w) i ''url'' = Inr (Some url)"
    "r_hmget (redis w) i ''branch'' = Inr (map_of h ''branch'')"
    "r_hmget (redis w) i ''revision'' = Inr ?rv"
    using rec url by (simp_all add: r_hmget_def)
  have red1: "redis ?w1 = redis w" and held1: "held ?w1 = ?l # held w"
    and tr1: "trace ?w1 = trace w @ [EvOpen ?l, EvLockEx ?l]"
    by (simp_all add: flock_ex_def open_w_def log_ev_def)
  have chk: "check_repo_was_cloned ?p i ?w1 = Inr True"
    using mat by (simp add: check_repo_was_cloned_locked)
  have hd1: "r_hdel (redis ?w1) i ''last_checkout'' = Inr ?r1"
    using hd(1) red1 by simp
  obtain tres w2 where tb: "try_body E i url ?b ?rv ?p ?w1 = (tres, w2)"
    by (cases "try_body E i url ?b ?rv ?p ?w1") auto
  note steps = try_body_update [OF chk hd1 tb]
  have closeU: "\<And>v. trace (flock_un ?l v) = trace v @ [EvLockUn ?l]"
    "\<And>v. redis (flock_un ?l v) = redis v"
    "\<And>v. trace (close_file ?l v) = trace v @ [EvClose ?l]"
    "\<And>v. redis (close_file ?l v) = redis v"
    by (simp_all add: close_file_def flock_un_def log_ev_def)
  have run: "run_git_clone_or_checkout E i w =
      (case tres of Inr _ \<Rightarrow> (Inr (), close_file ?l (flock_un ?l w2))
       | Inl e \<Rightarrow> if caught e then (Inr (), close_file ?l (flock_un ?l w2))
                  else (Inl e, close_file ?l w2))"
    using hm tb by (simp add: run_git_clone_or_checkout_def Let_def split: sum.splits)
  have main: "\<exists>res w' tres w2.
               run_git_clone_or_checkout E i w = (res, w')
             \<and> try_body E i url ?b ?rv ?p (flock_ex ?l (open_w ?l w)) = (tres, w2)
             \<and> ((\<exists>stats. tres = Inr () \<and> res = Inr ()
                   \<and> trace w' = trace w @ [EvOpen ?l, EvLockEx ?l, EvHDel i ''last_checkout'',
                                            EvCheckout ?p ?b] @ ?revs
                                          @ [EvHMSet i stats, EvLockUn ?l, EvClose ?l]
                   \<and> map_of stats ''last_checkout'' = Some (strftime_now E)
                   \<and> r_hmset ?r1 i stats = Inr (redis w')
                   \<and> r_hmget (redis w') i ''last_checkout'' = Inr (Some (strftime_now E)))
                \<or> (\<exists>e evs closing. tres = Inl e
                   \<and> prefix evs (EvCheckout ?p ?b # ?revs)
                   \<and> (closing = [EvLockUn ?l, EvClose ?l] \<or> closing = [EvClose ?l])
                   \<and> trace w' = trace w @ [EvOpen ?l, EvLockEx ?l, EvHDel i ''last_checkout'']
                                          @ evs @ closing
                   \<and> redis w' = ?r1))"
  proof (cases tres)
    case (Inr u)
    with steps obtain stats where
      t2: "trace w2 = trace ?w1 @ [EvHDel i ''last_checkout'', EvCheckout ?p ?b] @ ?revs @ [EvHMSet i stats]"
      and lc: "map_of stats ''last_checkout'' = Some (strftime_now E)"
      and ds: "distinct (map fst stats)"
      and hs: "r_hmset ?r1 i stats = Inr (redis w2)" by auto
    have run': "run_git_clone_or_checkout E i w = (Inr (), close_file ?l (flock_un ?l w2))"
      using run Inr by simp
    have tr: "trace (close_file ?l (flock_un ?l w2)) =
        trace w @ [EvOpen ?l, EvLockEx ?l, EvHDel i ''last_checkout'', EvCheckout ?p ?b] @ ?revs
                @ [EvHMSet i stats, EvLockUn ?l, EvClose ?l]"
      using t2 tr1 by (simp add: closeU)
    have wr: "r_hmget (redis w2) i ''last_checkout'' = Inr (Some (strftime_now E))"
      using hs ds lc by (rule hmset_then_hmget)
    show ?thesis
      apply (rule exI [of _ "Inr ()"], rule exI [of _ "close_file ?l (flock_un ?l w2)"])
      apply (rule exI [of _ tres], rule exI [of _ w2])
      apply (intro conjI run' tb disjI1)
      apply (rule exI [of _ stats])
      using Inr tr lc hs wr by (simp add: closeU)
  next
    case (Inl e)
    with steps obtain evs where
      pre: "prefix evs (EvCheckout ?p ?b # ?revs)"
      and t2: "trace w2 = trace ?w1 @ EvHDel i ''last_checkout'' # evs"
      and r2: "redis w2 = ?r1" by auto
    show ?thesis
    proof (cases "caught e")
      case True
      have run': "run_git_clone_or_checkout E i w = (Inr (), close_file ?l (flock_un ?l w2))"
        using run Inl True by simp
      show ?thesis
        apply (rule exI [of _ "Inr ()"], rule exI [of _ "close_file ?l (flock_un ?l w2)"])
        apply (rule exI [of _ tres], rule exI [of _ w2])
        apply (intro conjI run' tb disjI2)
        apply (rule exI [of _ e], rule exI [of _ evs], rule exI [of _ "[EvLockUn ?l, EvClose ?l]"])
        using Inl pre t2 r2 tr1 by (simp add: closeU)
    next
      case False
      have run': "run_git_clone_or_checkout E i w = (Inl e, close_file ?l w2)"
        using run Inl False by simp
      show ?thesis
        apply (rule exI [of _ "Inl e"], rule exI [of _ "close_file ?l w2"])
        apply (rule exI [of _ tres], rule exI [of _ w2])
        apply (intro conjI run' tb disjI2)
        apply (rule exI [of _ e], rule exI [of _ evs], rule exI [of _ "[EvClose ?l]"])
        using Inl pre t2 r2 tr1 by (simp add: closeU)
    qed
  qed
  show ?thesis unfolding Let_def using hd main by blast
qed

theorem update_clears_last_checkout_first_witness:
  "r_hmget (redis materialized_world) ''git_repo_id:1'' ''last_checkout''
      = Inr (Some ''Thu, 05 Nov 2015 19:10:44'')
   \<and> r_hmget (AList.update ''git_repo_id:1''
               (RHash (AList.delete ''last_checkout''
                  [(''url'', ''https://example.com/r.git''), (''branch'', ''main''),
                   (''total_files'', ''1''), (''last_checkout'', ''Thu, 05 Nov 2015 19:10:44'')]))
               (redis materialized_world)) ''git_repo_id:1'' ''last_checkout'' = Inr None
   \<and> fst (run_git_clone_or_checkout demo_env ''git_repo_id:1'' materialized_world) = Inr ()
   \<and> take 4 (trace (snd (run_git_clone_or_checkout demo_env ''git_repo_id:1'' materialized_world)))
       = [EvOpen ''r.git.lock'', EvLockEx ''r.git.lock'',
          EvHDel ''git_repo_id:1'' ''last_checkout'',
          EvCheckout ''/home/git/git_repositories/r.git'' ''main'']
   \<and> drop 5 (trace (snd (run_git_clone_or_checkout demo_env ''git_repo_id:1'' materialized_world)))
       = [EvLockUn ''r.git.lock'', EvClose ''r.git.lock'']
   \<and> r_hmget (redis (snd (run_git_clone_or_checkout demo_env ''git_repo_id:1'' materialized_world)))
        ''git_repo_id:1'' ''last_checkout'' = Inr (Some (strftime_now demo_env))"
proof -
  have rec: "map_of (redis materialized_world) ''git_repo_id:1'' =
      Some (RHash [(''url'', ''https://example.com/r.git''), (''branch'', ''main''),
                   (''total_files'', ''1''), (''last_checkout'', ''Thu, 05 Nov 2015 19:10:44'')])"
    by code_simp
  have url: "map_of [(''url'', ''https://example.com/r.git''), (''branch'', ''main''),
                   (''total_files'', ''1''), (''last_checkout'', ''Thu, 05 Nov 2015 19:10:44'')] ''url''
       = Some ''https://example.com/r.git''" by simp
  have mat: "check_repo_was_cloned
               (path_join (GIT_REPOS_PATH demo_env) (repo_name_of ''https://example.com/r.git''))
               ''git_repo_id:1'' materialized_world = Inr True" by code_simp
  note run = update_clears_last_checkout_first [where E = demo_env, OF rec url mat, unfolded Let_def]
  note cleared = run [THEN conjunct2, THEN conjunct1]
  have before: "r_hmget (redis materialized_world) ''git_repo_id:1'' ''last_checkout''
      = Inr (Some ''Thu, 05 Nov 2015 19:10:44'')" by code_simp
  have res: "fst (run_git_clone_or_checkout demo_env ''git_repo_id:1'' materialized_world) = Inr ()"
    by code_simp
  have t1: "take 4 (trace (snd (run_git_clone_or_checkout demo_env ''git_repo_id:1'' materialized_world)))
       = [EvOpen ''r.git.lock'', EvLockEx ''r.git.lock'',
          EvHDel ''git_repo_id:1'' ''last_checkout'',
          EvCheckout ''/home/git/git_repositories/r.git'' ''main'']" by code_simp
  have t2: "drop 5 (trace (snd (run_git_clone_or_checkout demo_env ''git_repo_id:1'' materialized_world)))
       = [EvLockUn ''r.git.lock'', EvClose ''r.git.lock'']" by code_simp
  have after: "r_hmget (redis (snd (run_git_clone_or_checkout demo_env ''git_repo_id:1'' materialized_world)))
        ''git_repo_id:1'' ''last_checkout'' = Inr (Some (strftime_now demo_env))" by code_simp
  from before cleared res t1 t2 after show ?thesis by blast
qed




text \<open>
  C9 (as the code has it). A second registration of the same url reuses the identity of the
  first, and every field named in the second request replaces the stored value; only the
  fields the second request does not name keep the value of the first registration. So a
  different branch or revision in the second request does replace the stored one.
\<close>

theorem reregister_overwrites_fields:
  assumes known: "r_get (redis w) url = Inr (Some i)" and ne: "i \<noteq> []"
    and rec: "map_of (redis w) i = Some (RHash h)" and r: "r \<noteq> []"
    and dist: "distinct (map fst r)"
  shows "\<exists>w' h'. clone_checkout_git_repository url r w = (Inr i, w')
          \<and> map_of (redis w') i = Some (RHash h')
          \<and> (\<forall>f. map_of h' f = (case map_of r f of Some v \<Rightarrow> Some v | None \<Rightarrow> map_of h f))"
  by (simp add: cc_known [OF known ne] r_hmset_hash [OF rec r] log_ev_def update_conv'
        updates_lookup [OF dist])

theorem reregister_replaces_branch:
  "r_hmget (redis registered_world) ''git_repo_id:1'' ''branch'' = Inr (Some ''main'')
   \<and> fst (clone_checkout_git_repository example_url
             [(''url'', example_url), (''branch'', ''dev'')] registered_world) = Inr ''git_repo_id:1''
   \<and> r_hmget (redis (snd (clone_checkout_git_repository example_url
             [(''url'', example_url), (''branch'', ''dev'')] registered_world)))
         ''git_repo_id:1'' ''branch'' = Inr (Some ''dev'')"
  by code_simp

theorem reregister_overwrites_fields_witness:
  "\<exists>w' h'. clone_checkout_git_repository example_url [(''branch'', ''dev'')] registered_world
              = (Inr ''git_repo_id:1'', w')
          \<and> map_of (redis w') ''git_repo_id:1'' = Some (RHash h')
          \<and> map_of h' ''branch'' = Some ''dev''
          \<and> map_of h' ''url'' = Some ''https://example.com/r.git''"
proof -
  have known: "r_get (redis registered_world) example_url = Inr (Some ''git_repo_id:1'')" by code_simp
  have rec: "map_of (redis registered_world) ''git_repo_id:1''
               = Some (RHash [(''url'', ''https://example.com/r.git''), (''branch'', ''main'')])"
    by code_simp
  have ne: "''git_repo_id:1'' \<noteq> []" and r: "[(''branch'', ''dev'')] \<noteq> []"
    and dist: "distinct (map fst [(''branch'', ''dev'')])" by simp_all
  from reregister_overwrites_fields [OF known ne rec r dist]
  obtain w' h' where call: "clone_checkout_git_repository example_url [(''branch'', ''dev'')] registered_world
              = (Inr ''git_repo_id:1'', w')"
    and h': "map_of (redis w') ''git_repo_id:1'' = Some (RHash h')"
    and f: "\<And>f. map_of h' f = (case map_of [(''branch'', ''dev'')] f of Some v \<Rightarrow> Some v
                 | None \<Rightarrow> map_of [(''url'', ''https://example.com/r.git''), (''branch'', ''main'')] f)"
    by blast
  have "map_of h' ''branch'' = Some ''dev''" by (simp add: f)
  moreover have "map_of h' ''url'' = Some ''https://example.com/r.git''" by (simp add: f)
  ultimately show ?thesis using call h' by blast
qed


theorem remove_skips_ids_after_a_failure:
  "r_hmget (redis cloning_world) (record_key (py_str (JInt 1))) ''url''
      = Inr (Some ''https://example.com/r.git'')
   \<and> check_repo_was_cloned
        (path_join (GIT_REPOS_PATH demo_env) (repo_name_of ''https://example.com/r.git''))
        (record_key (py_str (JInt 1))) cloning_world = Inr False
   \<and> remove_repos_by_id demo_env [JInt 7, JInt 1] cloning_world =
       (Inl (BadRequest ''Could not find an url for repository with a given id 7. Repository may not exist.''),
        cloning_world)"
  by code_simp




text \<open>
  C7 (as the code has it). A failure on one id of a remove batch does not undo the removals
  made for the ids before it, and the caller gets that one failure; but the loop stops there:
  the ids after the failing one are not looked at, so whether an id is removed depends on the
  ids before it.
\<close>

theorem remove_batch_stops_at_first_failure:
  assumes pre: "remove_repos_by_id E pre w0 = (Inr (), w1)"
    and fail: "fst (remove_repo E g w1) = Inl e"
  shows "remove_repos_by_id E (pre @ g # rest) w0 = (Inl e, w1)
       \<and> delete_git_repositories E (Some (pre @ g # rest)) w0 = (Inl e, w1)"
proof -
  obtain w2 where "remove_repo E g w1 = (Inl e, w2)" using fail by (cases "remove_repo E g w1") auto
  with remove_repo_fail_unchanged have "remove_repo E g w1 = (Inl e, w1)" by blast
  then have "remove_repos_by_id E (pre @ g # rest) w0 = (Inl e, w1)"
    by (simp add: remove_repos_by_id_append pre)
  then show ?thesis by (simp add: delete_git_repositories_def)
qed

theorem remove_batch_not_independent:
  "fst (remove_repos_by_id demo_env [JInt 1] materialized_world) = Inr ()
   \<and> r_hgetall (redis (snd (remove_repos_by_id demo_env [JInt 1] materialized_world))) ''git_repo_id:1'' = Inr []
   \<and> remove_repos_by_id demo_env [JInt 2, JInt 1] materialized_world =
       (Inl (BadRequest ''Could not find an url for repository with a given id 2. Repository may not exist.''),
        materialized_world)"
  by code_simp

theorem remove_batch_stops_at_first_failure_witness:
  "remove_repos_by_id demo_env ([JInt 1] @ JInt 2 # [JInt 3]) materialized_world =
     (Inl (BadRequest ''Could not find an url for repository with a given id 2. Repository may not exist.''),
      \<lparr>redis = [(''git_repo_id:id'', RStr ''1'')], files = [(''r.git.lock'', 0)], held = [],
       trace = [EvRmTree ''/home/git/git_repositories/r.git'', EvDelete ''git_repo_id:1'',
                EvDelete ''https://example.com/r.git'']\<rparr>)"
proof -
  let ?w1 = "\<lparr>redis = [(''git_repo_id:id'', RStr ''1'')], files = [(''r.git.lock'', 0)], held = [],
       trace = [EvRmTree ''/home/git/git_repositories/r.git'', EvDelete ''git_repo_id:1'',
                EvDelete ''https://example.com/r.git'']\<rparr>"
  have pre: "remove_repos_by_id demo_env [JInt 1] materialized_world = (Inr (), ?w1)" by code_simp
  have fail: "fst (remove_repo demo_env (JInt 2) ?w1) =
     Inl (BadRequest ''Could not find an url for repository with a given id 2. Repository may not exist.'')"
    by code_simp
  from remove_batch_stops_at_first_failure [OF pre fail, of "[JInt 3]"] show ?thesis by blast
qed

text \<open>
  C10 (as the code has it). For a request that supplies an explicit id list, the handler uses
  the supplied ids, as written, as store keys, without the prefix \<open>git_repo_id:\<close> that records
  are stored under. So for every id list none of whose ids is, as written, a key of the
  store, it returns an empty field map for every supplied id, also when a record for that id
  exists under the prefixed key. It is not so that polling by id never reports the fields: an
  id supplied in its stored form, \<open>git_repo_id:1\<close>, is answered with the fields of the record
  and its \<open>last_checkout\<close>; and an id that is the key of a url mapping makes the request
  fail.
\<close>

theorem get_by_id_returns_empty_maps:
  assumes absent: "\<forall>g \<in> set ids. map_of (redis w) (py_str g) = None"
  shows "get_git_repositories (Some ids) w = Inr (map (\<lambda>g. (g, [])) ids)"
proof -
  have "pipe_hgetall (redis w) ids = Inr (map (\<lambda>_. []) ids)"
    using absent by (intro pipe_hgetall_absent) blast
  then show ?thesis
    by (simp add: get_git_repositories_def zip_map2 zip_same_conv_map)
qed

theorem get_by_id_returns_empty_maps_witness:
  "r_hmget (redis materialized_world) (record_key (py_str (JInt 1))) ''last_checkout''
      = Inr (Some ''Thu, 05 Nov 2015 19:10:44'')
   \<and> get_git_repositories (Some [JInt 1, JStr ''1'']) materialized_world
      = Inr [(JInt 1, []), (JStr ''1'', [])]"
proof -
  have absent: "\<forall>g \<in> set [JInt 1, JStr ''1'']. map_of (redis materialized_world) (py_str g) = None"
    by code_simp
  have "r_hmget (redis materialized_world) (record_key (py_str (JInt 1))) ''last_checkout''
      = Inr (Some ''Thu, 05 Nov 2015 19:10:44'')" by code_simp
  with get_by_id_returns_empty_maps [OF absent] show ?thesis by simp
qed

theorem get_by_id_reports_fields:
  "get_git_repositories (Some [JStr ''git_repo_id:1'']) materialized_world =
     Inr [(JStr ''git_repo_id:1'',
           [(''url'', ''https://example.com/r.git''), (''branch'', ''main''), (''total_files'', ''1''),
            (''last_checkout'', ''Thu, 05 Nov 2015 19:10:44'')])]
   \<and> fst (clone_checkout_git_repository ''1'' [(''url'', ''1'')] empty_world) = Inr ''git_repo_id:1''
   \<and> get_git_repositories (Some [JInt 1])
        (snd (clone_checkout_git_repository ''1'' [(''url'', ''1'')] empty_world)) = Inl ResponseError"
  by code_simp

text \<open>
  C8. The stats written after a checkout hold, as \<open>total_files\<close>, the number of words of the
  output of \<open>git ls-files\<close>, not the number of its lines: a working copy that tracks the two
  files \<open>README\<close> and \<open>a b.txt\<close> is recorded with three files. The count is the number of
  tracked files only when no tracked path holds white space.
\<close>

theorem total_files_counts_words:
  "git_tracked demo_env ''/home/git/git_repositories/r.git'' (files materialized_world)
      = Inr [''README'', ''a b.txt'']
   \<and> fst (update_repo_stats demo_env ''git_repo_id:1'' ''/home/git/git_repositories/r.git''
            materialized_world) = Inr ()
   \<and> r_hmget (redis (snd (update_repo_stats demo_env ''git_repo_id:1''
                             ''/home/git/git_repositories/r.git'' materialized_world)))
        ''git_repo_id:1'' ''total_files'' = Inr (Some ''3'')"
  by code_simp

text \<open>
  C6. Every execution of the worker either ends before the lock file is opened (a read of the
  record failed or the record has no url: the exception propagates and nothing has changed),
  or it opens the lock file, takes the exclusive lock, runs the body of the \<open>try\<close> block and
  then gives the lock up on every way out: when the body completes or raises one of the four
  version-control errors, by the explicit unlock followed by the close of the file; when it
  raises anything else, by the close of the file alone. In each case the lock file is not
  among the locks held afterwards, and the locks held on other files are the ones held
  before.
\<close>

theorem lock_released_on_every_exit:
  "\<exists>res w'. run_git_clone_or_checkout E i w = (res, w')
     \<and> ((\<exists>e. res = Inl e) \<and> w' = w
        \<or> (\<exists>url b rv tres w2 evs.
              r_hmget (redis w) i ''url'' = Inr (Some url)
            \<and> r_hmget (redis w) i ''branch'' = Inr b
            \<and> r_hmget (redis w) i ''revision'' = Inr rv
            \<and> try_body E i url (if truthy b then the b else ''master'') rv
                 (path_join (GIT_REPOS_PATH E) (repo_name_of url))
                 (flock_ex (repo_name_of url @ ''.lock'') (open_w (repo_name_of url @ ''.lock'') w))
                = (tres, w2)
            \<and> trace w2 = trace w @ [EvOpen (repo_name_of url @ ''.lock''),
                                      EvLockEx (repo_name_of url @ ''.lock'')] @ evs
            \<and> ((tres = Inr () \<or> (\<exists>e. tres = Inl e \<and> caught e)) \<and> res = Inr ()
                  \<and> trace w' = trace w2 @ [EvLockUn (repo_name_of url @ ''.lock''),
                                            EvClose (repo_name_of url @ ''.lock'')]
                \<or> (\<exists>e. tres = Inl e \<and> res = Inl e)
                  \<and> trace w' = trace w2 @ [EvClose (repo_name_of url @ ''.lock'')])
            \<and> held w' = removeAll (repo_name_of url @ ''.lock'') (held w)
            \<and> repo_name_of url @ ''.lock'' \<notin> set (held w')))"
proof (cases "r_hmget (redis w) i ''url''")
  case (Inl e)
  then show ?thesis by (simp add: run_git_clone_or_checkout_def)
next
  case (Inr ou)
  from r_hmget_same_key [OF Inr] obtain b where b: "r_hmget (redis w) i ''branch'' = Inr b" by blast
  from r_hmget_same_key [OF Inr] obtain rv where rv: "r_hmget (redis w) i ''revision'' = Inr rv" by blast
  show ?thesis
  proof (cases ou)
    case None
    with Inr b rv show ?thesis by (simp add: run_git_clone_or_checkout_def)
  next
    case (Some url)
    let ?l = "repo_name_of url @ ''.lock''"
    let ?w1 = "flock_ex ?l (open_w ?l w)"
    let ?b = "if truthy b then the b else ''master''"
    let ?p = "path_join (GIT_REPOS_PATH E) (repo_name_of url)"
    have u: "r_hmget (redis w) i ''url'' = Inr (Some url)" using Inr Some by simp
    obtain tres w2 where tb: "try_body E i url ?b rv ?p ?w1 = (tres, w2)"
      by (cases "try_body E i url ?b rv ?p ?w1") auto
    from try_body_frame [OF tb] obtain evs where
      h2: "held w2 = held ?w1" and t2': "trace w2 = trace ?w1 @ evs" by blast
    have h1: "held ?w1 = ?l # held w" and t1: "trace ?w1 = trace w @ [EvOpen ?l, EvLockEx ?l]"
      by (simp_all add: flock_ex_def open_w_def log_ev_def)
    have t2: "trace w2 = trace w @ [EvOpen ?l, EvLockEx ?l] @ evs" using t1 t2' by simp
    show ?thesis
    proof (cases "tres = Inr () \<or> (\<exists>e. tres = Inl e \<and> caught e)")
      case True
      then have run: "run_git_clone_or_checkout E i w = (Inr (), close_file ?l (flock_un ?l w2))"
        using u b rv tb by (auto simp: run_git_clone_or_checkout_def Let_def)
      have h: "held (close_file ?l (flock_un ?l w2)) = removeAll ?l (held w)"
        using h1 h2 by (simp add: close_file_def flock_un_def log_ev_def)
      have t: "trace (close_file ?l (flock_un ?l w2)) = trace w2 @ [EvLockUn ?l, EvClose ?l]"
        by (simp add: close_file_def flock_un_def log_ev_def)
      have "?l \<notin> set (removeAll ?l (held w))" by simp
      with run u b rv tb t2 True h t show ?thesis by (metis (no_types, lifting))
    next
      case False
      then obtain e where e: "tres = Inl e" "\<not> caught e" by (cases tres) auto
      then have run: "run_git_clone_or_checkout E i w = (Inl e, close_file ?l w2)"
        using u b rv tb by (auto simp: run_git_clone_or_checkout_def Let_def)
      have h: "held (close_file ?l w2) = removeAll ?l (held w)"
        using h1 h2 by (simp add: close_file_def log_ev_def)
      have t: "trace (close_file ?l w2) = trace w2 @ [EvClose ?l]"
        by (simp add: close_file_def log_ev_def)
      have "?l \<notin> set (removeAll ?l (held w))" by simp
      with run u b rv tb t2 e h t show ?thesis by (metis (no_types, lifting))
    qed
  qed
qed

theorem lock_released_on_every_exit_witness:
  "\<exists>w'. run_git_clone_or_checkout failing_env ''git_repo_id:1'' registered_world = (Inr (), w')
      \<and> fst (try_body failing_env ''git_repo_id:1'' example_url ''main'' None
                ''/home/git/git_repositories/r.git''
                (flock_ex ''r.git.lock'' (open_w ''r.git.lock'' registered_world)))
          = Inl GitCommandError
      \<and> trace w' = trace registered_world @
           [EvOpen ''r.git.lock'', EvLockEx ''r.git.lock'',
            EvClone example_url ''/home/git/git_repositories/r.git'' ''main'',
            EvLockUn ''r.git.lock'', EvClose ''r.git.lock'']
      \<and> ''r.git.lock'' \<notin> set (held w')"
proof -
  from lock_released_on_every_exit [of failing_env "''git_repo_id:1''" registered_world]
  obtain res w' where run: "run_git_clone_or_checkout failing_env ''git_repo_id:1'' registered_world = (res, w')"
    and cases: "(\<exists>e. res = Inl e) \<and> w' = registered_world
        \<or> (\<exists>url. r_hmget (redis registered_world) ''git_repo_id:1'' ''url'' = Inr (Some url)
            \<and> repo_name_of url @ ''.lock'' \<notin> set (held w'))"
    by blast
  have ev: "fst (run_git_clone_or_checkout failing_env ''git_repo_id:1'' registered_world) = Inr ()"
    by code_simp
  have u: "r_hmget (redis registered_world) ''git_repo_id:1'' ''url'' = Inr (Some example_url)"
    by code_simp
  have l: "repo_name_of example_url @ ''.lock'' = ''r.git.lock''" by code_simp
  have rel: "''r.git.lock'' \<notin> set (held w')"
    using cases run ev u l by auto
  have tb: "fst (try_body failing_env ''git_repo_id:1'' example_url ''main'' None
                ''/home/git/git_repositories/r.git''
                (flock_ex ''r.git.lock'' (open_w ''r.git.lock'' registered_world)))
          = Inl GitCommandError" by code_simp
  have tr: "trace (snd (run_git_clone_or_checkout failing_env ''git_repo_id:1'' registered_world))
      = trace registered_world @
           [EvOpen ''r.git.lock'', EvLockEx ''r.git.lock'',
            EvClone example_url ''/home/git/git_repositories/r.git'' ''main'',
            EvLockUn ''r.git.lock'', EvClose ''r.git.lock'']" by code_simp
  show ?thesis using run ev rel tb tr by simp
qed

end
